theory Spec2Isabelle
  imports Complex_Main "HOL-Library.Log_Nat" "HOL-Library.AList"
begin

section \<open>Python values used by the image pipeline\<close>

subsection \<open>Exceptions\<close>

text \<open>
  Every exception of the pipeline is a value. The constructors name the Python class;
  the string is what \<^verbatim>\<open>str(e)\<close> returns. \<open>ExternalError\<close> stands for any exception
  raised by a collaborator outside the repository (HTTP client, image codec, file system).
\<close>

datatype py_error =
    ZeroDivisionError string
  | ValueError string
  | IndexError string
  | FileNotFoundError string
  | ExternalError string

fun str_of :: "py_error \<Rightarrow> string" where
  "str_of (ZeroDivisionError m) = m"
| "str_of (ValueError m) = m"
| "str_of (IndexError m) = m"
| "str_of (FileNotFoundError m) = m"
| "str_of (ExternalError m) = m"

subsection \<open>Floats: IEEE-754 binary64, round to nearest, ties to even\<close>

text \<open>
  A Python float is modelled by the rational number it denotes. Every arithmetic
  operation computes the exact result and rounds it to the nearest number with a
  53-bit significand, ties to the even significand, as binary64 does. The exponent
  range is not bounded: no operation of the fallback computers leaves the normal range
  for any image that fits in memory. The sign of zero is not modelled; no operation
  below depends on it.
\<close>

type_synonym pyfloat = rat

definition pow2 :: "int \<Rightarrow> rat" where
  "pow2 k = (if 0 \<le> k then 2 ^ nat k else 1 / 2 ^ nat (- k))"

text \<open>\<open>ilog2 x\<close> is the binary exponent of a positive rational: \<open>2^e \<le> x < 2^(e+1)\<close>.\<close>

definition ilog2 :: "rat \<Rightarrow> int" where
  "ilog2 x = (let (p, q) = quotient_of x; b = bitlen p - bitlen q
              in if pow2 b \<le> x then b else b - 1)"

definition round_half_even :: "rat \<Rightarrow> int" where
  "round_half_even m = (let f = \<lfloor>m\<rfloor>; d = m - of_int f
     in if d < 1 / 2 then f else if 1 / 2 < d then f + 1 else if even f then f else f + 1)"

definition rnd :: "rat \<Rightarrow> pyfloat" where
  "rnd x = (if x = 0 then 0
            else let u = pow2 (ilog2 \<bar>x\<bar> - 52) in of_int (round_half_even (x / u)) * u)"

text \<open>Integer square root by binary search from the top bit down.\<close>

fun isqrt_aux :: "nat \<Rightarrow> int \<Rightarrow> int \<Rightarrow> int" where
  "isqrt_aux 0 n r = r"
| "isqrt_aux (Suc k) n r =
     (let c = r + 2 ^ k in if c * c \<le> n then isqrt_aux k n c else isqrt_aux k n r)"

definition isqrt :: "int \<Rightarrow> int" where
  "isqrt n = isqrt_aux (nat (bitlen n)) n 0"

text \<open>
  The correctly rounded square root of a non-negative rational: the significand is the
  integer square root of the argument scaled into \<open>[2^104, 2^106)\<close>, rounded up when the
  argument lies above the square of the midpoint.
\<close>

definition sqrt_rnd :: "rat \<Rightarrow> pyfloat" where
  "sqrt_rnd x = (if x = 0 then 0
     else let u = pow2 (ilog2 x div 2 - 52); y = x / (u * u); f = isqrt \<lfloor>y\<rfloor>;
              h = (of_int f + 1 / 2) * (of_int f + 1 / 2);
              r = (if y < h then f else if h < y then f + 1 else if even f then f else f + 1)
          in of_int r * u)"

text \<open>\<^verbatim>\<open>float(n)\<close> for a Python int, and the float literal \<^verbatim>\<open>0.4\<close>.\<close>

definition float_of_int :: "int \<Rightarrow> pyfloat" where
  "float_of_int n = rnd (of_int n)"

definition lit_0_4 :: pyfloat where
  "lit_0_4 = rnd (4 / 10)"

definition fl_add :: "pyfloat \<Rightarrow> pyfloat \<Rightarrow> pyfloat" where
  "fl_add a b = rnd (a + b)"

definition fl_sub :: "pyfloat \<Rightarrow> pyfloat \<Rightarrow> pyfloat" where
  "fl_sub a b = rnd (a - b)"

definition fl_mul :: "pyfloat \<Rightarrow> pyfloat \<Rightarrow> pyfloat" where
  "fl_mul a b = rnd (a * b)"

text \<open>Python raises on a zero divisor instead of returning an infinity or a NaN.\<close>

definition fl_div :: "pyfloat \<Rightarrow> pyfloat \<Rightarrow> py_error + pyfloat" where
  "fl_div a b = (if b = 0 then Inl (ZeroDivisionError ''float division by zero'')
                 else Inr (rnd (a / b)))"

text \<open>\<^verbatim>\<open>a / b\<close> on two Python ints: the correctly rounded quotient.\<close>

definition int_true_div :: "int \<Rightarrow> int \<Rightarrow> py_error + pyfloat" where
  "int_true_div a b = (if b = 0 then Inl (ZeroDivisionError ''division by zero'')
                       else Inr (rnd (of_int a / of_int b)))"

text \<open>\<^verbatim>\<open>math.sqrt(n)\<close> on a Python int converts to float first and rejects negatives.\<close>

definition math_sqrt :: "int \<Rightarrow> py_error + pyfloat" where
  "math_sqrt n = (if n < 0 then Inl (ValueError ''math domain error'')
                  else Inr (sqrt_rnd (float_of_int n)))"

text \<open>\<^verbatim>\<open>int(f)\<close> truncates toward zero.\<close>

definition py_int :: "pyfloat \<Rightarrow> int" where
  "py_int f = (if 0 \<le> f then \<lfloor>f\<rfloor> else \<lceil>f\<rceil>)"

subsection \<open>Images (the part of PIL the pipeline uses)\<close>

text \<open>
  An image has a mode, a size and its samples in row-major order. Only mode \<open>L\<close>
  (one 8-bit channel) images are created by the repository itself; for every other
  image only the size is read.
\<close>

record image =
  im_mode :: string
  im_width :: nat
  im_height :: nat
  im_data :: "int list"

definition Image_new :: "string \<Rightarrow> nat \<Rightarrow> nat \<Rightarrow> image" where
  "Image_new mode w h = \<lparr>im_mode = mode, im_width = w, im_height = h, im_data = replicate (w * h) 0\<rparr>"

definition putpixel :: "image \<Rightarrow> nat \<times> nat \<Rightarrow> int \<Rightarrow> py_error + image" where
  "putpixel im xy v =
     (case xy of (x, y) \<Rightarrow>
        if x < im_width im \<and> y < im_height im
        then Inr (im\<lparr>im_data := (im_data im)[y * im_width im + x := v]\<rparr>)
        else Inl (IndexError ''image index out of range''))"

definition getpixel :: "image \<Rightarrow> nat \<times> nat \<Rightarrow> py_error + int" where
  "getpixel im xy =
     (case xy of (x, y) \<Rightarrow>
        if x < im_width im \<and> y < im_height im \<and> y * im_width im + x < length (im_data im)
        then Inr (im_data im ! (y * im_width im + x))
        else Inl (IndexError ''image index out of range''))"

text \<open>
  A \<^verbatim>\<open>for\<close> loop whose body may raise: the first exception ends the loop and is the
  result.
\<close>

fun for_loop :: "'a list \<Rightarrow> ('a \<Rightarrow> 's \<Rightarrow> py_error + 's) \<Rightarrow> 's \<Rightarrow> py_error + 's" where
  "for_loop [] body s = Inr s"
| "for_loop (x # xs) body s =
     (case body x s of Inl e \<Rightarrow> Inl e | Inr s' \<Rightarrow> for_loop xs body s')"

section \<open>Fallback computers (processor.py)\<close>

definition generate_fallback_depth :: "image \<Rightarrow> py_error + image" where
  "generate_fallback_depth img =
     (let width = im_width img; height = im_height img;
          depth = Image_new ''L'' width height;
          center_x = int width div 2; center_y = int height div 2
      in case math_sqrt (center_x ^ 2 + center_y ^ 2) of
           Inl e \<Rightarrow> Inl e
         | Inr max_dist \<Rightarrow>
             for_loop [0..<height] (\<lambda>y. for_loop [0..<width] (\<lambda>x depth.
               case math_sqrt ((int x - center_x) ^ 2 + (int y - center_y) ^ 2) of
                 Inl e \<Rightarrow> Inl e
               | Inr distance \<Rightarrow>
                   (case fl_div distance max_dist of
                      Inl e \<Rightarrow> Inl e
                    | Inr q \<Rightarrow>
                        putpixel depth (x, y)
                          (py_int (fl_mul (float_of_int 255) (fl_sub (float_of_int 1) q))))))
               depth)"

definition generate_fallback_mask :: "image \<Rightarrow> py_error + image" where
  "generate_fallback_mask img =
     (let width = im_width img; height = im_height img;
          mask = Image_new ''L'' width height;
          center_x = int width div 2; center_y = int height div 2;
          radius_x = fl_mul (float_of_int (int width)) lit_0_4;
          radius_y = fl_mul (float_of_int (int height)) lit_0_4
      in for_loop [0..<height] (\<lambda>y. for_loop [0..<width] (\<lambda>x mask.
           case fl_div (float_of_int (int x - center_x)) radius_x of
             Inl e \<Rightarrow> Inl e
           | Inr dx \<Rightarrow>
               (case fl_div (float_of_int (int y - center_y)) radius_y of
                  Inl e \<Rightarrow> Inl e
                | Inr dy \<Rightarrow>
                    if fl_add (fl_mul dx dx) (fl_mul dy dy) \<le> 1
                    then putpixel mask (x, y) 255
                    else Inr mask)))
           mask)"

section \<open>Data models (models/job.py)\<close>

datatype JobStatus = PENDING | PROCESSING | COMPLETED | FAILED

datatype InputType = OBJECT | LANDSCAPE | UNKNOWN

section \<open>The environment of a run\<close>

text \<open>
  Everything the pipeline obtains from outside the repository is a field of the
  environment: the two credentials read at import time, the outcome of each remote
  call, the file system, the image codec, the clock and the UUID generator. A remote
  call, a codec call and a file operation may each raise.
\<close>

record env =
  REPLICATE_API_TOKEN :: "string option"
  HF_API_TOKEN :: "string option"
  classify_with_hf :: "image \<Rightarrow> py_error + InputType"
  generate_depth_replicate :: "image \<Rightarrow> py_error + image"
  generate_depth_hf :: "image \<Rightarrow> py_error + image"
  UPLOADS_DIR :: string
  ASSETS_DIR :: string
  path_exists :: "string \<Rightarrow> bool"
  Image_open :: "string \<Rightarrow> py_error + image"
  convert :: "string \<Rightarrow> image \<Rightarrow> py_error + image"
  save_png :: "image \<Rightarrow> py_error + string"
  write_file :: "string \<Rightarrow> string \<Rightarrow> py_error option"
  uuid4 :: "nat \<Rightarrow> string"
  utcnow :: "nat \<Rightarrow> string"

text \<open>\<^verbatim>\<open>if TOKEN:\<close> on the result of \<^verbatim>\<open>os.getenv\<close>: false for \<^verbatim>\<open>None\<close> and for the empty string.\<close>

definition truthy :: "string option \<Rightarrow> bool" where
  "truthy t = (case t of None \<Rightarrow> False | Some s \<Rightarrow> s \<noteq> [])"

text \<open>The remote calls a function makes, in order, are returned beside its result.\<close>

datatype provider_call = Call_classify_hf | Call_depth_replicate | Call_depth_hf

section \<open>Classification and provider chains (processor.py)\<close>

definition classify_image :: "env \<Rightarrow> image \<Rightarrow> provider_call list \<times> (py_error + InputType)" where
  "classify_image env img =
     (let width = im_width img; height = im_height img
      in case int_true_div (int width) (int height) of
           Inl e \<Rightarrow> ([], Inl e)
         | Inr aspect_ratio \<Rightarrow>
             if aspect_ratio > 3 / 2 then ([], Inr LANDSCAPE)
             else if aspect_ratio < 3 / 4 then ([], Inr OBJECT)
             else if truthy (HF_API_TOKEN env) then
               (case classify_with_hf env img of
                  Inr t \<Rightarrow> ([Call_classify_hf], Inr t)
                | Inl e \<Rightarrow> ([Call_classify_hf], Inr OBJECT))
             else ([], Inr OBJECT))"

definition generate_depth_map :: "env \<Rightarrow> image \<Rightarrow> provider_call list \<times> (py_error + image)" where
  "generate_depth_map env img =
     (let fallback = (\<lambda>calls. (calls, generate_fallback_depth img));
          after_replicate = (\<lambda>calls.
            if truthy (HF_API_TOKEN env) then
              (case generate_depth_hf env img of
                 Inr d \<Rightarrow> (calls @ [Call_depth_hf], Inr d)
               | Inl e \<Rightarrow> fallback (calls @ [Call_depth_hf]))
            else fallback calls)
      in if truthy (REPLICATE_API_TOKEN env) then
           (case generate_depth_replicate env img of
              Inr d \<Rightarrow> ([Call_depth_replicate], Inr d)
            | Inl e \<Rightarrow> after_replicate [Call_depth_replicate])
         else after_replicate [])"

definition generate_mask_replicate :: "image \<Rightarrow> py_error + image" where
  "generate_mask_replicate img = generate_fallback_mask img"

definition generate_mask :: "env \<Rightarrow> image \<Rightarrow> py_error + image" where
  "generate_mask env img =
     (if truthy (REPLICATE_API_TOKEN env) then
        (case generate_mask_replicate img of
           Inr m \<Rightarrow> Inr m
         | Inl e \<Rightarrow> generate_fallback_mask img)
      else generate_fallback_mask img)"

section \<open>The job ledger and the blob store (database.py, storage/local.py)\<close>

record job_row =
  status :: JobStatus
  created_at :: string
  updated_at :: string
  input_type :: "InputType option"
  progress :: int
  error :: "string option"
  original_filename :: string
  outputs :: "(string \<times> string) list option"

record asset_row =
  asset_id :: string
  asset_job_id :: string
  asset_type :: string
  asset_filename :: string
  content_type :: string
  asset_size :: nat
  metadata :: "(string \<times> int) list option"
  asset_created_at :: string

text \<open>One \<^verbatim>\<open>column = ?\<close> item of the \<^verbatim>\<open>UPDATE jobs SET ...\<close> statement, with its parameter.\<close>

datatype assignment =
    Set_status JobStatus
  | Set_input_type InputType
  | Set_progress int
  | Set_error string
  | Set_outputs "(string \<times> string) list"
  | Set_updated_at string

fun assign :: "assignment \<Rightarrow> job_row \<Rightarrow> job_row" where
  "assign (Set_status s) r = r\<lparr>status := s\<rparr>"
| "assign (Set_input_type t) r = r\<lparr>input_type := Some t\<rparr>"
| "assign (Set_progress p) r = r\<lparr>progress := p\<rparr>"
| "assign (Set_error m) r = r\<lparr>error := Some m\<rparr>"
| "assign (Set_outputs d) r = r\<lparr>outputs := Some d\<rparr>"
| "assign (Set_updated_at t) r = r\<lparr>updated_at := t\<rparr>"

text \<open>
  The state the pipeline changes: the \<open>jobs\<close> table keyed by id, the \<open>assets\<close> table,
  the files of the blob store, and the number of clock and UUID readings taken so far.
  \<open>journal\<close> is a history variable: the \<^verbatim>\<open>UPDATE\<close> statements executed on the jobs
  table, in order, each with the id it addressed and the row a poll would read right
  after it (\<open>None\<close> when no row has that id). The code keeps no such log.
\<close>

record world =
  jobs :: "string \<rightharpoonup> job_row"
  assets :: "asset_row list"
  files :: "string \<rightharpoonup> string"
  readings :: nat
  journal :: "(string \<times> assignment list \<times> job_row option) list"

definition create_job :: "env \<Rightarrow> world \<Rightarrow> string \<Rightarrow> InputType option \<Rightarrow> world \<times> string \<times> job_row" where
  "create_job env w filename input_type_hint =
     (let job_id = uuid4 env (readings w); now = utcnow env (readings w + 1);
          row = \<lparr>status = PENDING, created_at = now, updated_at = now,
                 input_type = input_type_hint, progress = 0, error = None,
                 original_filename = filename, outputs = None\<rparr>
      in (w\<lparr>jobs := (jobs w)(job_id \<mapsto> row), readings := readings w + 2\<rparr>, job_id, row))"

definition get_job :: "world \<Rightarrow> string \<Rightarrow> job_row option" where
  "get_job w job_id = jobs w job_id"

definition update_job ::
  "env \<Rightarrow> world \<Rightarrow> string \<Rightarrow> JobStatus option \<Rightarrow> InputType option \<Rightarrow> int option \<Rightarrow>
   string option \<Rightarrow> (string \<times> string) list option \<Rightarrow> world \<times> bool" where
  "update_job env w job_id status_arg input_type_arg progress_arg error_arg outputs_arg =
     (let updates =
            (case status_arg of None \<Rightarrow> [] | Some s \<Rightarrow> [Set_status s]) @
            (case input_type_arg of None \<Rightarrow> [] | Some t \<Rightarrow> [Set_input_type t]) @
            (case progress_arg of None \<Rightarrow> [] | Some p \<Rightarrow> [Set_progress p]) @
            (case error_arg of None \<Rightarrow> [] | Some m \<Rightarrow> [Set_error m]) @
            (case outputs_arg of None \<Rightarrow> [] | Some d \<Rightarrow> [Set_outputs d])
      in if updates = [] then (w, False)
         else
           let updates = updates @ [Set_updated_at (utcnow env (readings w))];
               row' = map_option (fold assign updates) (jobs w job_id);
               w' = w\<lparr>readings := readings w + 1,
                      journal := journal w @ [(job_id, updates, row')]\<rparr>
           in case row' of
                None \<Rightarrow> (w', False)
              | Some r \<Rightarrow> (w'\<lparr>jobs := (jobs w)(job_id \<mapsto> r)\<rparr>, True))"

definition create_asset ::
  "env \<Rightarrow> world \<Rightarrow> string \<Rightarrow> string \<Rightarrow> string \<Rightarrow> string \<Rightarrow> nat \<Rightarrow>
   (string \<times> int) list option \<Rightarrow> world \<times> string" where
  "create_asset env w job_id atype filename ctype sz meta =
     (let new_id = uuid4 env (readings w); now = utcnow env (readings w + 1);
          row = \<lparr>asset_id = new_id, asset_job_id = job_id, asset_type = atype,
                 asset_filename = filename, content_type = ctype, asset_size = sz,
                 metadata = (case meta of None \<Rightarrow> None | Some m \<Rightarrow> if m = [] then None else Some m),
                 asset_created_at = now\<rparr>
      in (w\<lparr>assets := assets w @ [row], readings := readings w + 2\<rparr>, new_id))"

definition save_asset ::
  "env \<Rightarrow> world \<Rightarrow> string \<Rightarrow> string \<Rightarrow> string \<Rightarrow> string \<Rightarrow> world \<times> (py_error + string)" where
  "save_asset env w job_id atype data extension =
     (let path = ASSETS_DIR env @ ''/'' @ job_id @ ''/'' @ atype @ extension
      in case write_file env path data of
           Some e \<Rightarrow> (w, Inl e)
         | None \<Rightarrow> (w\<lparr>files := (files w)(path \<mapsto> data)\<rparr>, Inr path))"

section \<open>The pipeline (processor.py, \<open>process_image\<close>)\<close>

text \<open>The body of the \<^verbatim>\<open>try\<close> block: the state reached, and the exception if one was raised.\<close>

definition process_image_try ::
  "env \<Rightarrow> world \<Rightarrow> string \<Rightarrow> string \<Rightarrow> InputType option \<Rightarrow> world \<times> (py_error + unit)" where
  "process_image_try env w0 job_id filename input_type_hint =
     (let w1 = fst (update_job env w0 job_id (Some PROCESSING) None (Some 10) None None);
          upload_path = UPLOADS_DIR env @ ''/'' @ job_id @ ''/'' @ filename
      in if \<not> path_exists env upload_path
         then (w1, Inl (FileNotFoundError (''Upload not found: '' @ upload_path)))
         else (case Image_open env upload_path of
           Inl e \<Rightarrow> (w1, Inl e)
         | Inr img \<Rightarrow>
      (let width = im_width img; height = im_height img;
           w2 = fst (update_job env w1 job_id None None (Some 20) None None)
       in (case (case input_type_hint of
                   Some hint \<Rightarrow> Inr hint
                 | None \<Rightarrow> snd (classify_image env img)) of
           Inl e \<Rightarrow> (w2, Inl e)
         | Inr itype \<Rightarrow>
      (let w3 = fst (update_job env w2 job_id None (Some itype) (Some 30) None None);
           w4 = fst (update_job env w3 job_id None None (Some 40) None None)
       in (case snd (generate_depth_map env img) of
           Inl e \<Rightarrow> (w4, Inl e)
         | Inr depth_image \<Rightarrow>
      (let w5 = fst (update_job env w4 job_id None None (Some 60) None None);
           meta = Some [(''width'', int width), (''height'', int height)]
       in (case convert env ''RGB'' img of
           Inl e \<Rightarrow> (w5, Inl e)
         | Inr rgb \<Rightarrow>
        (case save_png env rgb of
           Inl e \<Rightarrow> (w5, Inl e)
         | Inr color_buffer \<Rightarrow>
        (case save_asset env w5 job_id ''color'' color_buffer ''.png'' of
           (w6, Inl e) \<Rightarrow> (w6, Inl e)
         | (w6, Inr color_path) \<Rightarrow>
      (let (w7, color_asset_id) =
             create_asset env w6 job_id ''color'' ''color.png'' ''image/png'' (length color_buffer) meta
       in (case save_png env depth_image of
           Inl e \<Rightarrow> (w7, Inl e)
         | Inr depth_buffer \<Rightarrow>
        (case save_asset env w7 job_id ''depth'' depth_buffer ''.png'' of
           (w8, Inl e) \<Rightarrow> (w8, Inl e)
         | (w8, Inr depth_path) \<Rightarrow>
      (let (w9, depth_asset_id) =
             create_asset env w8 job_id ''depth'' ''depth.png'' ''image/png'' (length depth_buffer) meta;
           outputs0 = [(''color'', color_asset_id), (''depth'', depth_asset_id)];
           complete = (\<lambda>w outs.
             (fst (update_job env w job_id (Some COMPLETED) None (Some 100) None (Some outs)), Inr ()))
       in if itype = OBJECT then
            (let w10 = fst (update_job env w9 job_id None None (Some 80) None None)
             in (case generate_mask env img of
                Inl e \<Rightarrow> (w10, Inl e)
              | Inr mask_image \<Rightarrow>
             (case save_png env mask_image of
                Inl e \<Rightarrow> (w10, Inl e)
              | Inr mask_buffer \<Rightarrow>
             (case save_asset env w10 job_id ''mask'' mask_buffer ''.png'' of
                (w11, Inl e) \<Rightarrow> (w11, Inl e)
              | (w11, Inr mask_path) \<Rightarrow>
            (let (w12, mask_asset_id) =
                   create_asset env w11 job_id ''mask'' ''mask.png'' ''image/png''
                     (length mask_buffer) meta
             in complete w12 (AList.update ''mask'' mask_asset_id outputs0))))))
          else complete w9 outputs0))))))))))))))"

text \<open>
  The whole function: the \<^verbatim>\<open>except Exception\<close> handler records the failure on the
  ledger and raises the same exception again.
\<close>

definition process_image ::
  "env \<Rightarrow> world \<Rightarrow> string \<Rightarrow> string \<Rightarrow> InputType option \<Rightarrow> world \<times> (py_error + unit)" where
  "process_image env w0 job_id filename input_type_hint =
     (case process_image_try env w0 job_id filename input_type_hint of
        (w, Inr u) \<Rightarrow> (w, Inr u)
      | (w, Inl e) \<Rightarrow>
          (fst (update_job env w job_id (Some FAILED) None None (Some (str_of e)) None), Inl e))"

section \<open>Pixels of the fallback images\<close>

text \<open>\<^verbatim>\<open>f(image).getpixel(xy)\<close>: the exception of \<open>f\<close> if it raised one, else the pixel.\<close>

definition getpixel_of :: "py_error + image \<Rightarrow> nat \<times> nat \<Rightarrow> py_error + int" where
  "getpixel_of r xy = (case r of Inl e \<Rightarrow> Inl e | Inr im \<Rightarrow> getpixel im xy)"

text \<open>
  The value \<open>generate_fallback_depth\<close> computes for pixel \<open>(x, y)\<close> of a \<open>w\<close> by \<open>h\<close>
  image, and the test \<open>generate_fallback_mask\<close> applies to it: the formulas of the
  code in double precision, every operation rounded, in the order the code evaluates.
\<close>

definition depth_value_float :: "nat \<Rightarrow> nat \<Rightarrow> nat \<Rightarrow> nat \<Rightarrow> int" where
  "depth_value_float w h x y =
     (let d = sqrt_rnd (float_of_int ((int x - int w div 2) ^ 2 + (int y - int h div 2) ^ 2));
          D = sqrt_rnd (float_of_int ((int w div 2) ^ 2 + (int h div 2) ^ 2))
      in py_int (fl_mul (float_of_int 255) (fl_sub (float_of_int 1) (rnd (d / D)))))"

definition mask_inside_float :: "nat \<Rightarrow> nat \<Rightarrow> nat \<Rightarrow> nat \<Rightarrow> bool" where
  "mask_inside_float w h x y =
     (let dx = rnd (float_of_int (int x - int w div 2) / fl_mul (float_of_int (int w)) lit_0_4);
          dy = rnd (float_of_int (int y - int h div 2) / fl_mul (float_of_int (int h)) lit_0_4)
      in fl_add (fl_mul dx dx) (fl_mul dy dy) \<le> 1)"

text \<open>
  The same two formulas as the specification words them, in exact arithmetic: the
  distance from the geometric centre over the centre-to-corner distance, and the
  normalized elliptical distance with semi-axes 0.4 times the width and the height.
\<close>

definition spec_depth_value :: "nat \<Rightarrow> nat \<Rightarrow> nat \<Rightarrow> nat \<Rightarrow> int" where
  "spec_depth_value w h x y =
     (let cx = real w / 2; cy = real h / 2;
          d = sqrt ((real x - cx) ^ 2 + (real y - cy) ^ 2);
          D = sqrt (cx ^ 2 + cy ^ 2);
          v = 255 * (1 - d / D)
      in if 0 \<le> v then \<lfloor>v\<rfloor> else \<lceil>v\<rceil>)"

definition spec_mask_inside :: "nat \<Rightarrow> nat \<Rightarrow> nat \<Rightarrow> nat \<Rightarrow> bool" where
  "spec_mask_inside w h x y =
     (let cx = of_nat w / 2; cy = of_nat h / 2 :: rat
      in ((of_nat x - cx) / (4 / 10 * of_nat w)) ^ 2 +
         ((of_nat y - cy) / (4 / 10 * of_nat h)) ^ 2 \<le> 1)"

section \<open>Auxiliary notions for the raster loops\<close>

text \<open>
  The samples after the first \<open>k\<close> pixels in row-major order have been visited: pixel
  \<open>i\<close> holds \<open>g i\<close> when visited and its old value otherwise.
\<close>

definition paint :: "nat \<Rightarrow> (nat \<Rightarrow> int) \<Rightarrow> int list \<Rightarrow> nat \<Rightarrow> int list" where
  "paint n g old k = map (\<lambda>i. if i < k then g i else old ! i) [0..<n]"

text \<open>One pixel: either written with the value chosen for it, or left alone.\<close>

definition pixel_step :: "(nat \<Rightarrow> nat \<Rightarrow> int option) \<Rightarrow> nat \<Rightarrow> nat \<Rightarrow> image \<Rightarrow> py_error + image" where
  "pixel_step f y x im = (case f x y of Some v \<Rightarrow> putpixel im (x, y) v | None \<Rightarrow> Inr im)"

definition painted :: "nat \<Rightarrow> (nat \<Rightarrow> nat \<Rightarrow> int option) \<Rightarrow> int list \<Rightarrow> nat \<Rightarrow> int" where
  "painted w f old i = (case f (i mod w) (i div w) of Some v \<Rightarrow> v | None \<Rightarrow> old ! i)"

section \<open>Reading the journal\<close>

text \<open>The progress values written by a sequence of statements, in order.\<close>

definition progress_writes :: "(string \<times> assignment list \<times> job_row option) list \<Rightarrow> int list" where
  "progress_writes js =
     concat (map (\<lambda>(j, ups, snap).
       concat (map (\<lambda>u. case u of Set_progress p \<Rightarrow> [p] | _ \<Rightarrow> []) ups)) js)"

text \<open>The progress values a client polling after each statement would read, in order.\<close>

definition progress_polls :: "(string \<times> assignment list \<times> job_row option) list \<Rightarrow> int list" where
  "progress_polls js =
     concat (map (\<lambda>(j, ups, snap). case snap of None \<Rightarrow> [] | Some r \<Rightarrow> [progress r]) js)"

section \<open>Concrete environments and inputs\<close>

text \<open>An image of the given size whose samples are all zero, as an upload would decode.\<close>

definition blank_rgb :: "nat \<Rightarrow> nat \<Rightarrow> image" where
  "blank_rgb w h = \<lparr>im_mode = ''RGB'', im_width = w, im_height = h, im_data = replicate (3 * w * h) 0\<rparr>"

text \<open>
  No credential is configured and every remote call would fail. The upload of job
  \<open>job-1\<close> exists and decodes to the image given; codec and file system work.
\<close>

definition offline_env :: "image \<Rightarrow> env" where
  "offline_env upload =
     \<lparr>REPLICATE_API_TOKEN = None, HF_API_TOKEN = None,
      classify_with_hf = (\<lambda>_. Inl (ExternalError ''All connection attempts failed'')),
      generate_depth_replicate = (\<lambda>_. Inl (ExternalError ''All connection attempts failed'')),
      generate_depth_hf = (\<lambda>_. Inl (ExternalError ''All connection attempts failed'')),
      UPLOADS_DIR = ''uploads'', ASSETS_DIR = ''assets'',
      path_exists = (\<lambda>p. p = ''uploads/job-1/input.png''),
      Image_open = (\<lambda>_. Inr upload),
      convert = (\<lambda>m i. Inr (i\<lparr>im_mode := m\<rparr>)),
      save_png = (\<lambda>i. Inr (''PNG'' @ im_mode i)),
      write_file = (\<lambda>p d. None),
      uuid4 = (\<lambda>n. replicate (Suc n) CHR ''u''),
      utcnow = (\<lambda>n. replicate (Suc n) CHR ''t'')\<rparr>"

text \<open>Both credentials are configured and both remote depth providers always fail.\<close>

definition failing_env :: "image \<Rightarrow> env" where
  "failing_env upload =
     (offline_env upload)\<lparr>REPLICATE_API_TOKEN := Some ''r8_token'', HF_API_TOKEN := Some ''hf_token'',
        generate_depth_replicate := (\<lambda>_. Inl (ExternalError ''Replicate prediction timed out''))\<rparr>"

text \<open>As \<open>offline_env\<close>, but no upload is stored.\<close>

definition no_upload_env :: "image \<Rightarrow> env" where
  "no_upload_env upload = (offline_env upload)\<lparr>path_exists := (\<lambda>_. False)\<rparr>"

text \<open>
  The Replicate credential is configured and its depth call returns the image given.
\<close>

definition replicate_env :: "image \<Rightarrow> image \<Rightarrow> env" where
  "replicate_env upload depth =
     (offline_env upload)\<lparr>REPLICATE_API_TOKEN := Some ''r8_token'',
        generate_depth_replicate := (\<lambda>_. Inr depth)\<rparr>"

definition tiny_upload :: image where
  "tiny_upload = blank_rgb 1 1"

definition wide_upload :: image where
  "wide_upload = blank_rgb 4 2"

definition provider_depth :: image where
  "provider_depth = Image_new ''L'' 4 2"

text \<open>The ledger right after \<open>create_job\<close> stored job \<open>job-1\<close>.\<close>

definition pending_row :: job_row where
  "pending_row = \<lparr>status = PENDING, created_at = ''t'', updated_at = ''t'', input_type = None,
     progress = 0, error = None, original_filename = ''input.png'', outputs = None\<rparr>"

definition pending_world :: world where
  "pending_world = \<lparr>jobs = [''job-1'' \<mapsto> pending_row], assets = [], files = Map.empty,
     readings = 2, journal = []\<rparr>"

section \<open>Rounding\<close>

text \<open>Powers of two, the binary exponent, and what rounding preserves.\<close>

lemma pow2_power_int: "pow2 k = power_int 2 k"
  by (simp add: pow2_def power_int_def power_one_over)

lemma pow2_pos [simp]: "0 < pow2 k"
  by (simp add: pow2_power_int)

lemma pow2_add: "pow2 (a + b) = pow2 a * pow2 b"
  by (simp add: pow2_power_int power_int_add)

lemma pow2_mono: "a \<le> b \<Longrightarrow> pow2 a \<le> pow2 b"
  by (simp add: pow2_power_int power_int_increasing)

lemma pow2_strict_mono: "a < b \<Longrightarrow> pow2 a < pow2 b"
  by (simp add: pow2_power_int power_int_strict_increasing)

lemma pow2_nat: "0 \<le> k \<Longrightarrow> pow2 k = 2 ^ nat k"
  by (simp add: pow2_def)

lemma ilog2_bounds:
  assumes "0 < x"
  shows "pow2 (ilog2 x) \<le> x \<and> x < pow2 (ilog2 x + 1)"
proof -
  obtain p q where pq: "quotient_of x = (p, q)"
    by (cases "quotient_of x")
  then have q: "0 < q" and x: "x = of_int p / of_int q"
    by (simp_all add: quotient_of_denom_pos quotient_of_div)
  with assms have p: "0 < p"
    by (simp add: zero_less_divide_iff)
  define bp where "bp = bitlen p"
  define bq where "bq = bitlen q"
  have bp1: "1 \<le> bp" and bq1: "1 \<le> bq"
    using p q by (simp_all add: bp_def bq_def bitlen_alt_def)
  have pb: "2 ^ nat (bp - 1) \<le> p" "p < 2 ^ nat bp"
    using bitlen_bounds [OF p] by (simp_all add: bp_def)
  have qb: "2 ^ nat (bq - 1) \<le> q" "q < 2 ^ nat bq"
    using bitlen_bounds [OF q] by (simp_all add: bq_def)
  have P: "pow2 (bp - 1) \<le> of_int p" "of_int p < pow2 bp"
  proof -
    have "(of_int (2 ^ nat (bp - 1)) :: rat) \<le> of_int p"
      using pb(1) by (simp only: of_int_le_iff)
    then show "pow2 (bp - 1) \<le> of_int p"
      using bp1 by (simp add: pow2_nat)
    have "(of_int p :: rat) < of_int (2 ^ nat bp)"
      using pb(2) by (simp only: of_int_less_iff)
    then show "of_int p < pow2 bp"
      using bp1 by (simp add: pow2_nat)
  qed
  have Q: "pow2 (bq - 1) \<le> of_int q" "of_int q < pow2 bq"
  proof -
    have "(of_int (2 ^ nat (bq - 1)) :: rat) \<le> of_int q"
      using qb(1) by (simp only: of_int_le_iff)
    then show "pow2 (bq - 1) \<le> of_int q"
      using bq1 by (simp add: pow2_nat)
    have "(of_int q :: rat) < of_int (2 ^ nat bq)"
      using qb(2) by (simp only: of_int_less_iff)
    then show "of_int q < pow2 bq"
      using bq1 by (simp add: pow2_nat)
  qed
  have qpos: "(0::rat) < of_int q"
    using q by simp
  have upper: "x < pow2 (bp - bq + 1)"
  proof -
    have "of_int p < pow2 bp"
      by (rule P(2))
    also have "pow2 bp = pow2 (bp - bq + 1) * pow2 (bq - 1)"
      by (simp flip: pow2_add)
    also have "\<dots> \<le> pow2 (bp - bq + 1) * of_int q"
      using Q(1) by (intro mult_left_mono) (simp_all add: less_imp_le)
    finally show ?thesis
      using qpos by (simp add: x pos_divide_less_eq)
  qed
  have lower: "pow2 (bp - bq - 1) \<le> x"
  proof -
    have "pow2 (bp - bq - 1) * of_int q \<le> pow2 (bp - bq - 1) * pow2 bq"
      using Q(2) by (intro mult_left_mono) (simp_all add: less_imp_le)
    also have "\<dots> = pow2 (bp - 1)"
      by (simp flip: pow2_add)
    also have "\<dots> \<le> of_int p"
      by (rule P(1))
    finally show ?thesis
      using qpos by (simp add: x pos_le_divide_eq)
  qed
  show ?thesis
  proof (cases "pow2 (bp - bq) \<le> x")
    case True
    then have "ilog2 x = bp - bq"
      by (simp add: ilog2_def pq bp_def bq_def)
    with True upper show ?thesis by simp
  next
    case False
    then have "ilog2 x = bp - bq - 1"
      by (simp add: ilog2_def pq bp_def bq_def)
    with False lower show ?thesis by simp
  qed
qed

lemma ilog2_unique:
  assumes "pow2 e \<le> x" and "x < pow2 (e + 1)"
  shows "ilog2 x = e"
proof -
  have "0 < x"
    using assms(1) pow2_pos [of e] by linarith
  then have b: "pow2 (ilog2 x) \<le> x" "x < pow2 (ilog2 x + 1)"
    using ilog2_bounds by simp_all
  have "pow2 e < pow2 (ilog2 x + 1)"
    using assms(1) b(2) by linarith
  then have 1: "e < ilog2 x + 1"
    using pow2_mono [of "ilog2 x + 1" e] by (cases "e < ilog2 x + 1") auto
  have "pow2 (ilog2 x) < pow2 (e + 1)"
    using assms(2) b(1) by linarith
  then have 2: "ilog2 x < e + 1"
    using pow2_mono [of "e + 1" "ilog2 x"] by (cases "ilog2 x < e + 1") auto
  from 1 2 show ?thesis by simp
qed

lemma round_half_even_ge:
  assumes "of_int N \<le> m"
  shows "N \<le> round_half_even m"
proof -
  have "N \<le> \<lfloor>m\<rfloor>"
    using assms by (simp add: le_floor_iff)
  then show ?thesis
    by (simp add: round_half_even_def Let_def)
qed

lemma round_half_even_le:
  assumes "m \<le> of_int N"
  shows "round_half_even m \<le> N"
proof (cases "m = of_int N")
  case True
  then show ?thesis
    by (simp add: round_half_even_def Let_def)
next
  case False
  with assms have "m < of_int N" by simp
  then have "\<lfloor>m\<rfloor> < N"
    by (simp add: floor_less_iff)
  then show ?thesis
    by (simp add: round_half_even_def Let_def)
qed

lemma round_half_even_above_half:
  assumes "of_int N + 1 / 2 < m"
  shows "N + 1 \<le> round_half_even m"
proof -
  have N: "N \<le> \<lfloor>m\<rfloor>"
    using assms by (simp add: le_floor_iff)
  show ?thesis
  proof (cases "N = \<lfloor>m\<rfloor>")
    case True
    then have "1 / 2 < m - of_int \<lfloor>m\<rfloor>"
      using assms by simp
    then show ?thesis
      using True by (simp add: round_half_even_def Let_def)
  next
    case False
    with N have "N + 1 \<le> \<lfloor>m\<rfloor>" by simp
    then show ?thesis
      by (simp add: round_half_even_def Let_def)
  qed
qed

lemma round_half_even_below_half:
  assumes "m < of_int N - 1 / 2"
  shows "round_half_even m \<le> N - 1"
proof -
  have "m < of_int N"
    using assms by linarith
  then have N: "\<lfloor>m\<rfloor> \<le> N - 1"
    by (simp add: floor_less_iff)
  show ?thesis
  proof (cases "\<lfloor>m\<rfloor> = N - 1")
    case True
    then have "m - of_int \<lfloor>m\<rfloor> < 1 / 2"
      using assms by simp
    then show ?thesis
      using True by (simp add: round_half_even_def Let_def)
  next
    case False
    with N have "\<lfloor>m\<rfloor> + 1 \<le> N - 1" by simp
    then show ?thesis
      by (simp add: round_half_even_def Let_def)
  qed
qed

lemma rnd_binade:
  assumes "pow2 e \<le> x" and "x < pow2 (e + 1)"
  shows "rnd x = of_int (round_half_even (x / pow2 (e - 52))) * pow2 (e - 52)"
proof -
  have "0 < x"
    using assms(1) pow2_pos [of e] by linarith
  moreover have "ilog2 x = e"
    using assms by (rule ilog2_unique)
  ultimately show ?thesis
    by (simp add: rnd_def Let_def)
qed

lemma rnd_lower:
  assumes "pow2 e \<le> x" and "x < pow2 (e + 1)" and "of_int N * pow2 (e - 52) \<le> x"
  shows "of_int N * pow2 (e - 52) \<le> rnd x"
proof -
  have "of_int N \<le> x / pow2 (e - 52)"
    using assms(3) by (simp add: pos_le_divide_eq)
  then have "N \<le> round_half_even (x / pow2 (e - 52))"
    by (rule round_half_even_ge)
  then have "(of_int N :: rat) \<le> of_int (round_half_even (x / pow2 (e - 52)))"
    by (simp only: of_int_le_iff)
  then show ?thesis
    unfolding rnd_binade [OF assms(1,2)]
    by (intro mult_right_mono) (simp_all add: less_imp_le)
qed

lemma rnd_upper:
  assumes "pow2 e \<le> x" and "x < pow2 (e + 1)" and "x \<le> of_int N * pow2 (e - 52)"
  shows "rnd x \<le> of_int N * pow2 (e - 52)"
proof -
  have "x / pow2 (e - 52) \<le> of_int N"
    using assms(3) by (simp add: pos_divide_le_eq)
  then have "round_half_even (x / pow2 (e - 52)) \<le> N"
    by (rule round_half_even_le)
  then have "(of_int (round_half_even (x / pow2 (e - 52))) :: rat) \<le> of_int N"
    by (simp only: of_int_le_iff)
  then show ?thesis
    unfolding rnd_binade [OF assms(1,2)]
    by (intro mult_right_mono) (simp_all add: less_imp_le)
qed

lemma rnd_ge_pow2:
  assumes "pow2 e \<le> x"
  shows "pow2 e \<le> rnd x"
proof -
  have x: "0 < x"
    using assms pow2_pos [of e] by linarith
  define k where "k = ilog2 x"
  have b: "pow2 k \<le> x" "x < pow2 (k + 1)"
    using ilog2_bounds [OF x] by (simp_all add: k_def)
  have "pow2 e < pow2 (k + 1)"
    using assms b(2) by linarith
  then have ek: "e \<le> k"
    using pow2_mono [of "k + 1" e] by (cases "e < k + 1") auto
  have "pow2 k = of_int (2 ^ 52) * pow2 (k - 52)"
    using pow2_add [of 52 "k - 52"] by (simp add: pow2_def)
  then have "of_int (2 ^ 52) * pow2 (k - 52) \<le> rnd x"
    using rnd_lower [OF b, of "2 ^ 52"] b(1) by simp
  then have "pow2 k \<le> rnd x"
    using \<open>pow2 k = of_int (2 ^ 52) * pow2 (k - 52)\<close> by simp
  with pow2_mono [OF ek] show ?thesis
    by linarith
qed

lemma rnd_le_pow2:
  assumes "0 < x" and "x \<le> pow2 e"
  shows "rnd x \<le> pow2 e"
proof (cases "x = pow2 e")
  case True
  have "pow2 e = of_int (2 ^ 52) * pow2 (e - 52)"
    using pow2_add [of 52 "e - 52"] by (simp add: pow2_def)
  moreover have "pow2 e < pow2 (e + 1)"
    by (simp add: pow2_strict_mono)
  ultimately show ?thesis
    using rnd_upper [of e x "2 ^ 52"] True by simp
next
  case False
  with assms have lt: "x < pow2 e" by simp
  define k where "k = ilog2 x"
  have b: "pow2 k \<le> x" "x < pow2 (k + 1)"
    using ilog2_bounds [OF assms(1)] by (simp_all add: k_def)
  have "pow2 k < pow2 e"
    using lt b(1) by linarith
  then have ke: "k + 1 \<le> e"
    using pow2_mono [of e k] by (cases "k < e") auto
  have "k + 1 = 53 + (k - 52)"
    by simp
  then have "pow2 (k + 1) = pow2 53 * pow2 (k - 52)"
    by (simp only: pow2_add)
  moreover have "pow2 53 = of_int (2 ^ 53)"
    by (simp add: pow2_def)
  ultimately have eq: "pow2 (k + 1) = of_int (2 ^ 53) * pow2 (k - 52)"
    by simp
  then have "rnd x \<le> of_int (2 ^ 53) * pow2 (k - 52)"
    using rnd_upper [OF b, of "2 ^ 53"] b(2) by simp
  then have "rnd x \<le> pow2 (k + 1)"
    using eq by simp
  with pow2_mono [OF ke] show ?thesis
    by linarith
qed

lemma rnd_pos: "0 < x \<Longrightarrow> 0 < rnd x"
  using rnd_ge_pow2 [of "ilog2 x" x] ilog2_bounds [of x] pow2_pos [of "ilog2 x"]
  by linarith

lemma rnd_uminus: "rnd (- x) = - rnd x"
proof -
  have "round_half_even (- m) = - round_half_even m" for m :: rat
  proof (cases "m = of_int \<lfloor>m\<rfloor>")
    case True
    then obtain n where "m = of_int n" by metis
    then show ?thesis
      by (simp add: round_half_even_def Let_def flip: of_int_minus)
  next
    case False
    then have c: "\<lceil>m\<rceil> = \<lfloor>m\<rfloor> + 1"
      by (metis ceiling_altdef)
    have f: "\<lfloor>- m\<rfloor> = - \<lfloor>m\<rfloor> - 1"
      using c by (simp add: floor_minus)
    show ?thesis
      unfolding round_half_even_def Let_def f
      by (auto simp: algebra_simps) 
  qed
  then show ?thesis
    by (simp add: rnd_def Let_def)
qed

lemma rnd_eq_0_iff: "rnd x = 0 \<longleftrightarrow> x = 0"
proof
  assume r: "rnd x = 0"
  show "x = 0"
  proof (rule ccontr)
    assume "x \<noteq> 0"
    then consider "0 < x" | "0 < - x" by linarith
    then show False
    proof cases
      case 1
      with rnd_pos [of x] r show False by simp
    next
      case 2
      with rnd_pos [of "- x"] r show False by (simp add: rnd_uminus)
    qed
  qed
next
  assume "x = 0"
  then show "rnd x = 0" by (simp add: rnd_def)
qed

lemma isqrt_aux_correct:
  assumes "r * r \<le> n" and "n < (r + 2 ^ k) * (r + 2 ^ k)" and "0 \<le> r"
  shows "isqrt_aux k n r * isqrt_aux k n r \<le> n \<and>
         n < (isqrt_aux k n r + 1) * (isqrt_aux k n r + 1) \<and> 0 \<le> isqrt_aux k n r"
  using assms
proof (induction k arbitrary: r)
  case 0
  then show ?case by simp
next
  case (Suc k)
  show ?case
  proof (cases "(r + 2 ^ k) * (r + 2 ^ k) \<le> n")
    case True
    have "n < (r + 2 ^ k + 2 ^ k) * (r + 2 ^ k + 2 ^ k)"
      using Suc.prems(2) by (simp add: algebra_simps)
    with True Suc.prems(3) show ?thesis
      using Suc.IH [of "r + 2 ^ k"] by (simp add: Let_def)
  next
    case False
    then have "n < (r + 2 ^ k) * (r + 2 ^ k)" by simp
    with False Suc.prems show ?thesis
      using Suc.IH [of r] by (simp add: Let_def)
  qed
qed

lemma isqrt_correct:
  assumes "0 \<le> n"
  shows "isqrt n * isqrt n \<le> n \<and> n < (isqrt n + 1) * (isqrt n + 1) \<and> 0 \<le> isqrt n"
proof (cases "n = 0")
  case True
  then show ?thesis by (simp add: isqrt_def)
next
  case False
  with assms have n: "0 < n" by simp
  have "n < 2 ^ nat (bitlen n)"
    using bitlen_bounds [OF n] by simp
  also have "(2::int) ^ nat (bitlen n) \<le> 2 ^ nat (bitlen n) * 2 ^ nat (bitlen n)"
    by (simp add: mult_le_cancel_left1)
  finally have "n < (0 + 2 ^ nat (bitlen n)) * (0 + 2 ^ nat (bitlen n))"
    by simp
  then show ?thesis
    unfolding isqrt_def using assms by (intro isqrt_aux_correct) simp_all
qed

lemma isqrt_pos:
  assumes "1 \<le> n"
  shows "1 \<le> isqrt n"
proof (rule ccontr)
  assume "\<not> 1 \<le> isqrt n"
  moreover have "0 \<le> isqrt n" "n < (isqrt n + 1) * (isqrt n + 1)"
    using isqrt_correct [of n] assms by simp_all
  ultimately have "isqrt n = 0" by simp
  with \<open>n < (isqrt n + 1) * (isqrt n + 1)\<close> assms show False by simp
qed

lemma sqrt_rnd_pos:
  assumes "0 < x"
  shows "0 < sqrt_rnd x"
proof -
  define k where "k = ilog2 x div 2"
  define u where "u = pow2 (k - 52)"
  define y where "y = x / (u * u)"
  define f where "f = isqrt \<lfloor>y\<rfloor>"
  have u: "0 < u" by (simp add: u_def)
  have "u * u = pow2 (2 * k - 104)"
    unfolding u_def by (simp flip: pow2_add)
  also have "\<dots> \<le> pow2 (ilog2 x)"
  proof -
    have "2 * k - 104 \<le> ilog2 x"
      unfolding k_def by presburger
    then show ?thesis by (rule pow2_mono)
  qed
  also have "\<dots> \<le> x"
    using ilog2_bounds [OF assms] by simp
  finally have "1 \<le> y"
    using u by (simp add: y_def)
  then have "1 \<le> \<lfloor>y\<rfloor>" by (simp add: le_floor_iff)
  then have f: "1 \<le> f"
    unfolding f_def by (rule isqrt_pos)
  have "sqrt_rnd x = of_int f * u \<or> sqrt_rnd x = of_int (f + 1) * u"
    using assms by (simp add: sqrt_rnd_def Let_def k_def u_def y_def f_def)
  with f u show ?thesis
    by (auto intro!: mult_pos_pos)
qed

lemma sqrt_rnd_eq_0_iff: "0 \<le> x \<Longrightarrow> sqrt_rnd x = 0 \<longleftrightarrow> x = 0"
  using sqrt_rnd_pos [of x] by (auto simp: sqrt_rnd_def)

lemma math_sqrt_nonneg:
  "0 \<le> n \<Longrightarrow> math_sqrt n = Inr (sqrt_rnd (float_of_int n))"
  by (simp add: math_sqrt_def)

lemma math_sqrt_zero_iff:
  assumes "0 \<le> n"
  shows "sqrt_rnd (float_of_int n) = 0 \<longleftrightarrow> n = 0"
proof (cases "n = 0")
  case True
  then show ?thesis by (simp add: float_of_int_def rnd_def sqrt_rnd_def)
next
  case False
  with assms have "0 < (of_int n :: rat)" by simp
  then have "0 < float_of_int n"
    unfolding float_of_int_def by (rule rnd_pos)
  then have "0 < sqrt_rnd (float_of_int n)" by (rule sqrt_rnd_pos)
  with False show ?thesis by simp
qed

lemma rnd_above_midpoint:
  assumes "pow2 e \<le> x" and "x < pow2 (e + 1)" and "(of_int N + 1 / 2) * pow2 (e - 52) < x"
  shows "of_int (N + 1) * pow2 (e - 52) \<le> rnd x"
proof -
  have "of_int N + 1 / 2 < x / pow2 (e - 52)"
    using assms(3) by (simp add: pos_less_divide_eq)
  then have "N + 1 \<le> round_half_even (x / pow2 (e - 52))"
    by (rule round_half_even_above_half)
  then have "(of_int (N + 1) :: rat) \<le> of_int (round_half_even (x / pow2 (e - 52)))"
    by (simp only: of_int_le_iff)
  then show ?thesis
    unfolding rnd_binade [OF assms(1,2)]
    by (intro mult_right_mono) (simp_all add: less_imp_le)
qed

lemma rnd_below_midpoint:
  assumes "pow2 e \<le> x" and "x < pow2 (e + 1)" and "x < (of_int N - 1 / 2) * pow2 (e - 52)"
  shows "rnd x \<le> of_int (N - 1) * pow2 (e - 52)"
proof -
  have "x / pow2 (e - 52) < of_int N - 1 / 2"
    using assms(3) by (simp add: pos_divide_less_eq)
  then have "round_half_even (x / pow2 (e - 52)) \<le> N - 1"
    by (rule round_half_even_below_half)
  then have "(of_int (round_half_even (x / pow2 (e - 52))) :: rat) \<le> of_int (N - 1)"
    by (simp only: of_int_le_iff)
  then show ?thesis
    unfolding rnd_binade [OF assms(1,2)]
    by (intro mult_right_mono) (simp_all add: less_imp_le)
qed

lemma pow2_values:
  "pow2 0 = 1" "pow2 1 = 2" "pow2 (- 1) = 1 / 2" "pow2 (- 52) = 1 / 2 ^ 52"
  "pow2 (- 53) = 1 / 2 ^ 53"
  by (simp_all add: pow2_def)

text \<open>The quotient of two image sides against the thresholds 1.5 and 0.75.\<close>

lemma ratio_above:
  fixes w h :: int
  assumes "0 < h" and "h < 2 ^ 52" and "3 / 2 < (of_int w / of_int h :: rat)"
  shows "3 / 2 < rnd (of_int w / of_int h)"
proof -
  define x :: rat where "x = of_int w / of_int h"
  have hpos: "(0::rat) < of_int h" using assms(1) by simp
  have "3 * of_int h < 2 * (of_int w :: rat)"
    using assms(3) hpos by (simp add: pos_less_divide_eq)
  then have "(of_int (3 * h) :: rat) < of_int (2 * w)" by simp
  then have "3 * h < 2 * w" by (simp only: of_int_less_iff)
  then have "3 * h + 1 \<le> 2 * w" by simp
  then have le: "(of_int (3 * h + 1) :: rat) \<le> of_int (2 * w)" by (simp only: of_int_le_iff)
  have "3 / 2 + 1 / (2 * of_int h) = (of_int (3 * h + 1) :: rat) / (2 * of_int h)"
    using hpos by (simp add: field_simps)
  also have "\<dots> \<le> of_int (2 * w) / (2 * of_int h)"
    using le hpos by (intro divide_right_mono) simp_all
  also have "\<dots> = x"
    by (simp add: x_def)
  finally have gap: "3 / 2 + 1 / (2 * of_int h) \<le> x" .
  have "(of_int h :: rat) < of_int (2 ^ 52)"
    using assms(2) by (simp only: of_int_less_iff)
  then have hb: "(of_int h :: rat) < 2 ^ 52" by simp
  have "1 / 2 ^ 53 < 1 / (2 * of_int h :: rat)"
    using hb hpos by (simp add: field_simps)
  with gap have far: "3 / 2 + 1 / 2 ^ 53 < x" by linarith
  show ?thesis
  proof (cases "x < 2")
    case True
    have b: "pow2 0 \<le> x" "x < pow2 (0 + 1)"
      using far True by (simp_all add: pow2_values)
    have "(of_int (3 * 2 ^ 51) + 1 / 2) * pow2 (0 - 52) < x"
      using far by (simp add: pow2_values)
    then have "of_int (3 * 2 ^ 51 + 1) * pow2 (0 - 52) \<le> rnd x"
      using b by (rule rnd_above_midpoint [where N = "3 * 2 ^ 51" and e = 0, rotated 2])
    then show ?thesis
      by (simp add: pow2_values x_def)
  next
    case False
    then have "pow2 1 \<le> x" by (simp add: pow2_values)
    then have "pow2 1 \<le> rnd x" by (rule rnd_ge_pow2)
    then show ?thesis by (simp add: pow2_values x_def)
  qed
qed

lemma ratio_below:
  fixes w h :: int
  assumes "0 < h" and "h < 2 ^ 52" and "0 \<le> w" and "(of_int w / of_int h :: rat) < 3 / 4"
  shows "rnd (of_int w / of_int h) < 3 / 4"
proof -
  define x :: rat where "x = of_int w / of_int h"
  have hpos: "(0::rat) < of_int h" using assms(1) by simp
  have x0: "0 \<le> x" using assms(1,3) by (simp add: x_def)
  have "4 * (of_int w :: rat) < 3 * of_int h"
    using assms(4) hpos by (simp add: pos_divide_less_eq)
  then have "(of_int (4 * w) :: rat) < of_int (3 * h)" by simp
  then have "4 * w < 3 * h" by (simp only: of_int_less_iff)
  then have "4 * w \<le> 3 * h - 1" by simp
  then have le: "(of_int (4 * w) :: rat) \<le> of_int (3 * h - 1)" by (simp only: of_int_le_iff)
  have "x = (of_int (4 * w) :: rat) / (4 * of_int h)"
    by (simp add: x_def)
  also have "\<dots> \<le> of_int (3 * h - 1) / (4 * of_int h)"
    using le hpos by (intro divide_right_mono) simp_all
  also have "\<dots> = 3 / 4 - 1 / (4 * of_int h)"
    using hpos by (simp add: field_simps)
  finally have gap: "x \<le> 3 / 4 - 1 / (4 * of_int h)" .
  have "(of_int h :: rat) < of_int (2 ^ 52)"
    using assms(2) by (simp only: of_int_less_iff)
  then have hb: "(of_int h :: rat) < 2 ^ 52" by simp
  have "1 / 2 ^ 54 < 1 / (4 * of_int h :: rat)"
    using hb hpos by (simp add: field_simps)
  with gap have far: "x < 3 / 4 - 1 / 2 ^ 54" by linarith
  consider "x = 0" | "0 < x" "x < 1 / 2" | "1 / 2 \<le> x"
    using x0 by linarith
  then show ?thesis
  proof cases
    case 1
    then show ?thesis by (simp add: rnd_def flip: x_def)
  next
    case 2
    then have "rnd x \<le> pow2 (- 1)"
      by (intro rnd_le_pow2) (simp_all add: pow2_values)
    then show ?thesis by (simp add: pow2_values x_def)
  next
    case 3
    have b: "pow2 (- 1) \<le> x" "x < pow2 (- 1 + 1)"
      using far 3 by (simp_all add: pow2_values)
    have "x < (of_int (3 * 2 ^ 51) - 1 / 2) * pow2 (- 1 - 52)"
      using far by (simp add: pow2_values)
    then have "rnd x \<le> of_int (3 * 2 ^ 51 - 1) * pow2 (- 1 - 52)"
      using b by (rule rnd_below_midpoint [where N = "3 * 2 ^ 51" and e = "- 1", rotated 2])
    then show ?thesis
      by (simp add: pow2_values x_def)
  qed
qed

lemma ratio_band:
  fixes x :: rat
  assumes "3 / 4 \<le> x" and "x \<le> 3 / 2"
  shows "3 / 4 \<le> rnd x \<and> rnd x \<le> 3 / 2"
proof (cases "x < 1")
  case True
  have b: "pow2 (- 1) \<le> x" "x < pow2 (- 1 + 1)"
    using assms True by (simp_all add: pow2_values)
  have "of_int (3 * 2 ^ 51) * pow2 (- 1 - 52) \<le> x"
    using assms(1) by (simp add: pow2_values)
  then have "of_int (3 * 2 ^ 51) * pow2 (- 1 - 52) \<le> rnd x"
    using b by (rule rnd_lower [where N = "3 * 2 ^ 51" and e = "- 1", rotated 2])
  moreover have "rnd x \<le> pow2 0"
    using True assms(1) by (intro rnd_le_pow2) (simp_all add: pow2_values)
  ultimately show ?thesis
    by (simp add: pow2_values)
next
  case False
  show ?thesis
  proof (cases "x < 2")
    case True
    have b: "pow2 0 \<le> x" "x < pow2 (0 + 1)"
      using False True by (simp_all add: pow2_values)
    have "x \<le> of_int (3 * 2 ^ 51) * pow2 (0 - 52)"
      using assms(2) by (simp add: pow2_values)
    then have "rnd x \<le> of_int (3 * 2 ^ 51) * pow2 (0 - 52)"
      using b by (rule rnd_upper [where N = "3 * 2 ^ 51" and e = 0, rotated 2])
    moreover have "pow2 0 \<le> rnd x"
      using False by (intro rnd_ge_pow2) (simp add: pow2_values)
    ultimately show ?thesis
      by (simp add: pow2_values)
  next
    case False
    with assms(2) show ?thesis by simp
  qed
qed

section \<open>Raster loops\<close>

lemma for_loop_append:
  "for_loop (xs @ ys) body s =
     (case for_loop xs body s of Inl e \<Rightarrow> Inl e | Inr s' \<Rightarrow> for_loop ys body s')"
  by (induction xs arbitrary: s) (auto split: sum.splits)

lemma paint_0: "length old = n \<Longrightarrow> paint n g old 0 = old"
  by (auto simp: paint_def intro!: nth_equalityI)

lemma paint_length [simp]: "length (paint n g old k) = n"
  by (simp add: paint_def)

lemma paint_Suc: "k < n \<Longrightarrow> (paint n g old k)[k := g k] = paint n g old (Suc k)"
  by (auto simp: paint_def nth_list_update less_Suc_eq intro!: nth_equalityI)

lemma paint_skip: "g k = old ! k \<Longrightarrow> paint n g old (Suc k) = paint n g old k"
  by (auto simp: paint_def less_Suc_eq)

lemma paint_nth: "i < n \<Longrightarrow> i < k \<Longrightarrow> paint n g old k ! i = g i"
  by (simp add: paint_def)

lemma index_bound:
  fixes x y w h :: nat
  assumes "x < w" and "y < h"
  shows "y * w + x < w * h"
proof -
  have "y * w + x < (Suc y) * w" using assms(1) by simp
  also have "\<dots> \<le> h * w" using assms(2) by (intro mult_le_mono1) simp
  finally show ?thesis by (simp add: mult.commute)
qed

lemma row_loop:
  assumes "y < h" and "n \<le> w" and "im_width im = w" and "im_height im = h"
    and "\<And>x s. x < w \<Longrightarrow> body x s = pixel_step f y x s"
  shows "for_loop [0..<n] body (im\<lparr>im_data := paint (w * h) (painted w f old) old (y * w)\<rparr>) =
         Inr (im\<lparr>im_data := paint (w * h) (painted w f old) old (y * w + n)\<rparr>)"
  using assms(2)
proof (induction n)
  case 0
  then show ?case by simp
next
  case (Suc n)
  then have n: "n < w" by simp
  have k: "y * w + n < w * h"
    using n assms(1) by (rule index_bound)
  have dm: "(y * w + n) mod w = n" "(y * w + n) div w = y"
    using n by simp_all
  have step: "body n (im\<lparr>im_data := paint (w * h) (painted w f old) old (y * w + n)\<rparr>) =
        Inr (im\<lparr>im_data := paint (w * h) (painted w f old) old (Suc (y * w + n))\<rparr>)"
  proof (cases "f n y")
    case None
    then have "painted w f old (y * w + n) = old ! (y * w + n)"
      using n by (simp add: painted_def)
    then show ?thesis
      using None n by (simp add: assms(5) pixel_step_def paint_skip)
  next
    case (Some v)
    then have "painted w f old (y * w + n) = v"
      using n by (simp add: painted_def)
    then show ?thesis
      using Some n k assms(1,3,4) paint_Suc [of "y * w + n" "w * h" "painted w f old" old]
      by (simp add: assms(5) pixel_step_def putpixel_def)
  qed
  show ?case
    using Suc n step by (simp add: for_loop_append)
qed

lemma raster_loop:
  assumes "m \<le> h" and "im_width im = w" and "im_height im = h"
    and "\<And>x y s. x < w \<Longrightarrow> y < h \<Longrightarrow> body y x s = pixel_step f y x s"
  shows "for_loop [0..<m] (\<lambda>y. for_loop [0..<w] (body y))
           (im\<lparr>im_data := paint (w * h) (painted w f old) old 0\<rparr>) =
         Inr (im\<lparr>im_data := paint (w * h) (painted w f old) old (m * w)\<rparr>)"
  using assms(1)
proof (induction m)
  case 0
  then show ?case by simp
next
  case (Suc m)
  then have m: "m < h" by simp
  have "for_loop [0..<w] (body m) (im\<lparr>im_data := paint (w * h) (painted w f old) old (m * w)\<rparr>) =
        Inr (im\<lparr>im_data := paint (w * h) (painted w f old) old (m * w + w)\<rparr>)"
    using m assms(2,3) by (intro row_loop [where h = h]) (simp_all add: assms(4))
  then show ?case
    using Suc m by (simp add: for_loop_append add.commute)
qed

lemma raster_result:
  assumes "im_width im = w" and "im_height im = h" and "length (im_data im) = w * h"
    and "\<And>x y s. x < w \<Longrightarrow> y < h \<Longrightarrow> body y x s = pixel_step f y x s"
  shows "\<exists>out. for_loop [0..<h] (\<lambda>y. for_loop [0..<w] (body y)) im = Inr out \<and>
           im_mode out = im_mode im \<and> im_width out = w \<and> im_height out = h \<and>
           length (im_data out) = w * h \<and>
           (\<forall>x<w. \<forall>y<h. getpixel out (x, y) =
              Inr (case f x y of Some v \<Rightarrow> v | None \<Rightarrow> im_data im ! (y * w + x)))"
proof -
  let ?old = "im_data im"
  let ?out = "im\<lparr>im_data := paint (w * h) (painted w f ?old) ?old (h * w)\<rparr>"
  have start: "im\<lparr>im_data := paint (w * h) (painted w f ?old) ?old 0\<rparr> = im"
    using assms(3) by (simp add: paint_0)
  have run: "for_loop [0..<h] (\<lambda>y. for_loop [0..<w] (body y)) im = Inr ?out"
    using raster_loop [of h h im w body f ?old] assms(1,2,4) start by simp
  have px: "getpixel ?out (x, y) = Inr (case f x y of Some v \<Rightarrow> v | None \<Rightarrow> ?old ! (y * w + x))"
    if "x < w" "y < h" for x y
  proof -
    have k: "y * w + x < w * h" using that by (rule index_bound)
    then have "paint (w * h) (painted w f ?old) ?old (h * w) ! (y * w + x) =
               painted w f ?old (y * w + x)"
      by (intro paint_nth) (simp_all add: mult.commute)
    then show ?thesis
      using that k assms(1,2) by (simp add: getpixel_def painted_def)
  qed
  show ?thesis
    using run px assms(1,2) by (intro exI [of _ ?out]) simp
qed

lemma Image_new_fields:
  "im_mode (Image_new m w h) = m" "im_width (Image_new m w h) = w"
  "im_height (Image_new m w h) = h" "length (im_data (Image_new m w h)) = w * h"
  "i < w * h \<Longrightarrow> im_data (Image_new m w h) ! i = 0"
  by (simp_all add: Image_new_def)

lemma fallback_depth_result:
  assumes "1 < im_width img \<or> 1 < im_height img"
  shows "\<exists>out. generate_fallback_depth img = Inr out \<and> im_mode out = ''L'' \<and>
           im_width out = im_width img \<and> im_height out = im_height img \<and>
           length (im_data out) = im_width img * im_height img \<and>
           (\<forall>x<im_width img. \<forall>y<im_height img.
              getpixel out (x, y) =
                Inr (depth_value_float (im_width img) (im_height img) x y))"
proof -
  define w where "w = im_width img"
  define h where "h = im_height img"
  define n where "n = (int w div 2) ^ 2 + (int h div 2) ^ 2"
  define D where "D = sqrt_rnd (float_of_int n)"
  have n0: "0 \<le> n"
    by (simp add: n_def)
  have "int w div 2 \<noteq> 0 \<or> int h div 2 \<noteq> 0"
    using assms unfolding w_def h_def by linarith
  then have "n \<noteq> 0"
    unfolding n_def by (auto simp: sum_power2_eq_zero_iff)
  then have D: "D \<noteq> 0"
    using math_sqrt_zero_iff [OF n0] by (simp add: D_def)
  have max_dist: "math_sqrt n = Inr D"
    using n0 by (simp add: math_sqrt_nonneg D_def)
  let ?f = "\<lambda>x y. Some (depth_value_float w h x y)"
  let ?body = "\<lambda>y x depth.
       case math_sqrt ((int x - int w div 2) ^ 2 + (int y - int h div 2) ^ 2) of
         Inl e \<Rightarrow> Inl e
       | Inr distance \<Rightarrow>
           (case fl_div distance D of
              Inl e \<Rightarrow> Inl e
            | Inr q \<Rightarrow>
                putpixel depth (x, y)
                  (py_int (fl_mul (float_of_int 255) (fl_sub (float_of_int 1) q))))"
  have body: "?body y x s = pixel_step ?f y x s" for x y s
    using D
    by (simp add: math_sqrt_nonneg fl_div_def pixel_step_def depth_value_float_def Let_def
          D_def n_def)
  have "\<exists>out. for_loop [0..<h] (\<lambda>y. for_loop [0..<w] (?body y)) (Image_new ''L'' w h) = Inr out \<and>
           im_mode out = im_mode (Image_new ''L'' w h) \<and> im_width out = w \<and> im_height out = h \<and>
           length (im_data out) = w * h \<and>
           (\<forall>x<w. \<forall>y<h. getpixel out (x, y) =
              Inr (case ?f x y of Some v \<Rightarrow> v | None \<Rightarrow> im_data (Image_new ''L'' w h) ! (y * w + x)))"
    by (rule raster_result) (simp_all add: Image_new_fields body)
  then show ?thesis
    unfolding generate_fallback_depth_def Let_def w_def [symmetric] h_def [symmetric]
    by (simp add: max_dist [unfolded n_def] Image_new_fields)
qed

lemma lit_0_4_pos: "0 < lit_0_4"
  unfolding lit_0_4_def by (rule rnd_pos) simp

lemma radius_nonzero:
  assumes "0 < n"
  shows "fl_mul (float_of_int (int n)) lit_0_4 \<noteq> 0"
proof -
  have "0 < float_of_int (int n)"
    unfolding float_of_int_def using assms by (intro rnd_pos) simp
  then have "0 < float_of_int (int n) * lit_0_4"
    using lit_0_4_pos by (rule mult_pos_pos)
  then have "0 < fl_mul (float_of_int (int n)) lit_0_4"
    unfolding fl_mul_def by (rule rnd_pos)
  then show ?thesis by simp
qed

lemma fallback_mask_result:
  "\<exists>out. generate_fallback_mask img = Inr out \<and> im_mode out = ''L'' \<and>
           im_width out = im_width img \<and> im_height out = im_height img \<and>
           length (im_data out) = im_width img * im_height img \<and>
           (\<forall>x<im_width img. \<forall>y<im_height img.
              getpixel out (x, y) =
                Inr (if mask_inside_float (im_width img) (im_height img) x y then 255 else 0))"
proof -
  define w where "w = im_width img"
  define h where "h = im_height img"
  let ?f = "\<lambda>x y. if mask_inside_float w h x y then Some 255 else None"
  let ?body = "\<lambda>y x mask.
       case fl_div (float_of_int (int x - int w div 2)) (fl_mul (float_of_int (int w)) lit_0_4) of
         Inl e \<Rightarrow> Inl e
       | Inr dx \<Rightarrow>
           (case fl_div (float_of_int (int y - int h div 2))
                   (fl_mul (float_of_int (int h)) lit_0_4) of
              Inl e \<Rightarrow> Inl e
            | Inr dy \<Rightarrow>
                if fl_add (fl_mul dx dx) (fl_mul dy dy) \<le> 1
                then putpixel mask (x, y) 255
                else Inr mask)"
  have body: "?body y x s = pixel_step ?f y x s" if "x < w" "y < h" for x y s
  proof -
    have "0 < w" "0 < h" using that by simp_all
    then show ?thesis
      using radius_nonzero [of w] radius_nonzero [of h]
      by (simp add: fl_div_def pixel_step_def mask_inside_float_def Let_def)
  qed
  have "\<exists>out. for_loop [0..<h] (\<lambda>y. for_loop [0..<w] (?body y)) (Image_new ''L'' w h) = Inr out \<and>
           im_mode out = im_mode (Image_new ''L'' w h) \<and> im_width out = w \<and> im_height out = h \<and>
           length (im_data out) = w * h \<and>
           (\<forall>x<w. \<forall>y<h. getpixel out (x, y) =
              Inr (case ?f x y of Some v \<Rightarrow> v | None \<Rightarrow> im_data (Image_new ''L'' w h) ! (y * w + x)))"
    by (rule raster_result) (simp_all add: Image_new_fields body)
  then obtain out where out:
    "for_loop [0..<h] (\<lambda>y. for_loop [0..<w] (?body y)) (Image_new ''L'' w h) = Inr out"
    "im_mode out = ''L''" "im_width out = w" "im_height out = h" "length (im_data out) = w * h"
    "\<forall>x<w. \<forall>y<h. getpixel out (x, y) =
       Inr (case ?f x y of Some v \<Rightarrow> v | None \<Rightarrow> im_data (Image_new ''L'' w h) ! (y * w + x))"
    by (auto simp: Image_new_fields)
  have px: "getpixel out (x, y) = Inr (if mask_inside_float w h x y then 255 else 0)"
    if "x < w" "y < h" for x y
  proof -
    have "y * w + x < w * h" using that by (rule index_bound)
    then show ?thesis
      using out(6) that by (simp add: Image_new_fields)
  qed
  show ?thesis
    unfolding generate_fallback_mask_def Let_def w_def [symmetric] h_def [symmetric]
    using out(1-5) px by auto
qed

section \<open>Properties of the ledger\<close>

text \<open>
  Claim C10. \<open>update_job\<close> changes only the columns whose argument is not \<open>None\<close>, and
  \<open>updated_at\<close>: for a job that exists, every column whose argument is \<open>None\<close> keeps its
  value, so a \<open>None\<close> argument never clears status, input type, progress, error or
  outputs. When every argument is \<open>None\<close> the call returns \<open>False\<close> and the whole state,
  \<open>updated_at\<close> included, is unchanged.
\<close>

theorem update_job_frame:
  assumes "jobs w job_id = Some row"
  shows "case update_job env w job_id st it pr er ou of (w', changed) \<Rightarrow>
     (st = None \<and> it = None \<and> pr = None \<and> er = None \<and> ou = None \<longrightarrow> w' = w \<and> \<not> changed) \<and>
     (\<not> (st = None \<and> it = None \<and> pr = None \<and> er = None \<and> ou = None) \<longrightarrow>
        changed \<and> (\<exists>row'. jobs w' job_id = Some row' \<and>
          status row' = (case st of None \<Rightarrow> status row | Some s \<Rightarrow> s) \<and>
          input_type row' = (case it of None \<Rightarrow> input_type row | Some t \<Rightarrow> Some t) \<and>
          progress row' = (case pr of None \<Rightarrow> progress row | Some p \<Rightarrow> p) \<and>
          error row' = (case er of None \<Rightarrow> error row | Some m \<Rightarrow> Some m) \<and>
          outputs row' = (case ou of None \<Rightarrow> outputs row | Some d \<Rightarrow> Some d) \<and>
          created_at row' = created_at row \<and>
          original_filename row' = original_filename row \<and>
          updated_at row' = utcnow env (readings w)))"
  using assms
  by (auto simp: update_job_def Let_def split: option.splits)

theorem update_job_frame_witness:
  "jobs pending_world ''job-1'' = Some pending_row \<and>
   (case update_job (offline_env (blank_rgb 4 2)) pending_world ''job-1''
           None None None None None of (w', changed) \<Rightarrow> w' = pending_world \<and> \<not> changed) \<and>
   (case update_job (offline_env (blank_rgb 4 2)) pending_world ''job-1''
           None None (Some 20) None None of (w', changed) \<Rightarrow>
      changed \<and> (\<exists>row'. jobs w' ''job-1'' = Some row' \<and> status row' = PENDING \<and>
        input_type row' = None \<and> progress row' = 20 \<and> error row' = None \<and>
        outputs row' = None))"
proof -
  have h: "jobs pending_world ''job-1'' = Some pending_row"
    by (simp add: pending_world_def)
  show ?thesis
    using h
      update_job_frame [OF h, where env = "offline_env (blank_rgb 4 2)" and st = None
        and it = None and pr = None and er = None and ou = None]
      update_job_frame [OF h, where env = "offline_env (blank_rgb 4 2)" and st = None
        and it = None and pr = "Some 20" and er = None and ou = None]
    by (auto simp: pending_row_def split: prod.splits)
qed

section \<open>Properties of the fallback computers and the provider chains\<close>

text \<open>
  Claim C8 says that \<open>generate_fallback_depth\<close> returns for every image of width and
  height at least 1, the 1 by 1 image included. On the 1 by 1 image both centre
  coordinates are 0, so \<open>max_dist\<close> is 0.0 and the division \<open>dist / max_dist\<close> of the
  only pixel raises \<open>ZeroDivisionError\<close>.
\<close>

theorem generate_fallback_depth_raises_1x1:
  "generate_fallback_depth (blank_rgb 1 1) = Inl (ZeroDivisionError ''float division by zero'')"
  by code_simp

text \<open>
  Claim C4 says that \<open>generate_depth_map\<close> never raises. With both providers
  configured and both failing, the chain tries Replicate, then Hugging Face, then the
  local fallback, whose exception on a 1 by 1 image is outside every \<^verbatim>\<open>try\<close> block
  and leaves the chain.
\<close>

theorem generate_depth_map_raises_1x1:
  "generate_depth_map (failing_env (blank_rgb 1 1)) (blank_rgb 1 1) =
     ([Call_depth_replicate, Call_depth_hf], Inl (ZeroDivisionError ''float division by zero''))"
  by code_simp

text \<open>
  Claim C9. Whether or not the Replicate credential is configured, \<open>generate_mask\<close>
  returns exactly what \<open>generate_fallback_mask\<close> returns on the same image: the
  Replicate path is the fallback itself.
\<close>

theorem generate_mask_is_fallback:
  "generate_mask env img = generate_fallback_mask img"
  by (simp add: generate_mask_def generate_mask_replicate_def split: sum.splits)

text \<open>
  Claim C5. For an image of positive height below \<open>2^52\<close> (every image that can be
  held in memory), \<open>classify_image\<close> returns Landscape when width / height exceeds 1.5
  and Object when it is below 0.75, in both cases without a remote call and whatever
  the environment; when the ratio lies in the band from 0.75 to 1.5 and no Hugging Face
  credential is configured it returns Object, again without a remote call. The ratio is
  the exact quotient; the code compares its rounding to double precision, which for
  such heights falls on the same side of both thresholds.
\<close>

theorem classify_image_by_aspect_ratio:
  assumes "0 < im_height img" and "im_height img < 2 ^ 52"
  shows "(3 / 2 < (of_nat (im_width img) / of_nat (im_height img) :: rat) \<longrightarrow>
            classify_image env img = ([], Inr LANDSCAPE)) \<and>
         ((of_nat (im_width img) / of_nat (im_height img) :: rat) < 3 / 4 \<longrightarrow>
            classify_image env img = ([], Inr OBJECT)) \<and>
         (3 / 4 \<le> (of_nat (im_width img) / of_nat (im_height img) :: rat) \<and>
          (of_nat (im_width img) / of_nat (im_height img) :: rat) \<le> 3 / 2 \<and>
          \<not> truthy (HF_API_TOKEN env) \<longrightarrow>
            classify_image env img = ([], Inr OBJECT))"
proof -
  define w where "w = int (im_width img)"
  define h where "h = int (im_height img)"
  define x :: rat where "x = of_int w / of_int h"
  have h: "0 < h" "h < 2 ^ 52" and w: "0 \<le> w"
    using assms by (simp_all add: h_def w_def)
  have nat_ratio: "(of_nat (im_width img) / of_nat (im_height img) :: rat) = x"
    by (simp add: x_def w_def h_def)
  have div: "int_true_div w h = Inr (rnd x)"
    using h(1) by (simp add: int_true_div_def x_def)
  have A: "3 / 2 < rnd x" if "3 / 2 < x"
    using ratio_above [OF h] that by (simp add: x_def)
  have B: "rnd x < 3 / 4" if "x < 3 / 4"
    using ratio_below [OF h w] that by (simp add: x_def)
  have C: "3 / 4 \<le> rnd x \<and> rnd x \<le> 3 / 2" if "3 / 4 \<le> x" "x \<le> 3 / 2"
    using ratio_band that by simp
  show ?thesis
    unfolding nat_ratio classify_image_def Let_def
    using A B C
    by (auto simp: div [unfolded w_def h_def])
qed

theorem classify_image_by_aspect_ratio_witness:
  "0 < im_height (blank_rgb 200 100) \<and> im_height (blank_rgb 200 100) < 2 ^ 52 \<and>
   3 / 2 < (of_nat (im_width (blank_rgb 200 100)) / of_nat (im_height (blank_rgb 200 100)) :: rat) \<and>
   classify_image (failing_env (blank_rgb 200 100)) (blank_rgb 200 100) = ([], Inr LANDSCAPE) \<and>
   0 < im_height (blank_rgb 100 200) \<and> im_height (blank_rgb 100 200) < 2 ^ 52 \<and>
   (of_nat (im_width (blank_rgb 100 200)) / of_nat (im_height (blank_rgb 100 200)) :: rat) < 3 / 4 \<and>
   classify_image (failing_env (blank_rgb 100 200)) (blank_rgb 100 200) = ([], Inr OBJECT) \<and>
   \<not> truthy (HF_API_TOKEN (offline_env (blank_rgb 100 100))) \<and>
   classify_image (offline_env (blank_rgb 100 100)) (blank_rgb 100 100) = ([], Inr OBJECT)"
  using classify_image_by_aspect_ratio [of "blank_rgb 200 100" "failing_env (blank_rgb 200 100)"]
    classify_image_by_aspect_ratio [of "blank_rgb 100 200" "failing_env (blank_rgb 100 200)"]
    classify_image_by_aspect_ratio [of "blank_rgb 100 100" "offline_env (blank_rgb 100 100)"]
  by (simp add: truthy_def offline_env_def blank_rgb_def)

text \<open>Single pixels of the fallback images of an upload of a given size.\<close>

lemma blank_rgb_size [simp]:
  "im_width (blank_rgb w h) = w" "im_height (blank_rgb w h) = h"
  by (simp_all add: blank_rgb_def)

lemma depth_pixel_at:
  assumes "1 < w \<or> 1 < h" and "x < w" and "y < h"
  shows "getpixel_of (generate_fallback_depth (blank_rgb w h)) (x, y) =
           Inr (depth_value_float w h x y)"
  using fallback_depth_result [of "blank_rgb w h"] assms
  by (auto simp: getpixel_of_def)

lemma mask_pixel_at:
  assumes "x < w" and "y < h"
  shows "getpixel_of (generate_fallback_mask (blank_rgb w h)) (x, y) =
           Inr (if mask_inside_float w h x y then 255 else 0)"
  using fallback_mask_result [of "blank_rgb w h"] assms
  by (auto simp: getpixel_of_def)

lemma depth_100_centre: "depth_value_float 100 100 50 50 = 255"
  by code_simp

lemma depth_100_corner: "depth_value_float 100 100 0 0 = 0"
  by code_simp

lemma depth_100_10_10: "depth_value_float 100 100 10 10 = 50"
  by code_simp

lemma spec_depth_100_10_10: "spec_depth_value 100 100 10 10 = 51"
proof -
  have "sqrt 3200 / sqrt 5000 = sqrt ((4 / 5) ^ 2)"
    by (simp add: power2_eq_square flip: real_sqrt_divide)
  also have "\<dots> = 4 / 5"
    by (simp only: real_sqrt_abs)
  finally have q: "sqrt 3200 / sqrt 5000 = 4 / 5" .
  have "255 * (1 - sqrt 3200 / sqrt 5000) = (51 :: real)"
    unfolding q by simp
  then show ?thesis
    by (simp add: spec_depth_value_def Let_def)
qed

lemma mask_100_centre: "mask_inside_float 100 100 50 50"
  by code_simp

lemma mask_100_corner: "\<not> mask_inside_float 100 100 0 0"
  by code_simp

lemma mask_130_45_17: "\<not> mask_inside_float 130 130 45 17"
  by code_simp

lemma spec_mask_130_45_17: "spec_mask_inside 130 130 45 17"
  by code_simp

text \<open>
  Claim C6 as stated reads the formula in exact arithmetic. On a 100 by 100 image the
  pixel (10, 10) lies at distance exactly 0.8 of the centre-to-corner distance, so the
  formula gives 255 * 0.2 = 51; the code computes 1 - 0.8 in double precision as
  0.19999999999999996 and stores \<open>int(50.99999999999999) = 50\<close>.
\<close>

theorem depth_formula_counterexample:
  "getpixel_of (generate_fallback_depth (blank_rgb 100 100)) (10, 10) = Inr 50 \<and>
   spec_depth_value 100 100 10 10 = 51"
  by (simp add: depth_pixel_at depth_100_10_10 spec_depth_100_10_10)

text \<open>
  Claim C6, amended. For every image of width and height at least 1 other than the
  1 by 1 image, \<open>generate_fallback_depth\<close> returns an image of mode \<open>L\<close> and the same
  size whose pixel \<open>(x, y)\<close> is \<open>int(255 * (1 - dist / max_dist))\<close> evaluated in double
  precision in the order the code evaluates it, with \<open>dist\<close> the distance from
  \<open>(w // 2, h // 2)\<close> and \<open>max_dist\<close> the distance of that centre from the top-left
  corner. On a 100 by 100 image the centre pixel (50, 50) is 255 and the top-left
  corner pixel (0, 0) is 0.
\<close>

theorem fallback_depth_pixels:
  "(1 \<le> im_width img \<and> 1 \<le> im_height img \<and> (1 < im_width img \<or> 1 < im_height img) \<longrightarrow>
      (\<exists>out. generate_fallback_depth img = Inr out \<and> im_mode out = ''L'' \<and>
         im_width out = im_width img \<and> im_height out = im_height img \<and>
         length (im_data out) = im_width img * im_height img \<and>
         (\<forall>x<im_width img. \<forall>y<im_height img.
            getpixel out (x, y) =
              Inr (depth_value_float (im_width img) (im_height img) x y)))) \<and>
   getpixel_of (generate_fallback_depth (blank_rgb 100 100)) (50, 50) = Inr 255 \<and>
   getpixel_of (generate_fallback_depth (blank_rgb 100 100)) (0, 0) = Inr 0"
  using fallback_depth_result [of img]
  by (simp add: depth_pixel_at depth_100_centre depth_100_corner)

theorem fallback_depth_pixels_witness:
  "1 \<le> im_width (blank_rgb 100 100) \<and> 1 \<le> im_height (blank_rgb 100 100) \<and>
   (1 < im_width (blank_rgb 100 100) \<or> 1 < im_height (blank_rgb 100 100)) \<and>
   (50::nat) < im_width (blank_rgb 100 100) \<and> (50::nat) < im_height (blank_rgb 100 100) \<and>
   (\<exists>out. generate_fallback_depth (blank_rgb 100 100) = Inr out \<and> im_mode out = ''L'' \<and>
      im_width out = 100 \<and> im_height out = 100 \<and> getpixel out (50, 50) = Inr 255)"
  using fallback_depth_pixels [of "blank_rgb 100 100"]
  by (auto simp: depth_100_centre)

text \<open>
  Claim C7 as stated reads the ellipse test in exact arithmetic. On a 130 by 130 image
  the pixel (45, 17) has offsets (-20, -48) and semi-axes 52, so its normalized distance
  is exactly (20/52)^2 + (48/52)^2 = 1 and the claim makes it foreground; the code
  computes the sum in double precision as 1.0000000000000002 and leaves the pixel 0.
\<close>

theorem mask_formula_counterexample:
  "getpixel_of (generate_fallback_mask (blank_rgb 130 130)) (45, 17) = Inr 0 \<and>
   spec_mask_inside 130 130 45 17"
  by (simp add: mask_pixel_at mask_130_45_17 spec_mask_130_45_17)

text \<open>
  Claim C7, amended. For every image, \<open>generate_fallback_mask\<close> returns an image of
  mode \<open>L\<close> and the same size whose pixel \<open>(x, y)\<close> is 255 if and only if
  \<open>dx * dx + dy * dy <= 1\<close> holds in double precision as the code evaluates it, with
  \<open>dx = (x - w // 2) / (w * 0.4)\<close> and \<open>dy = (y - h // 2) / (h * 0.4)\<close>, and 0 otherwise.
  On a 100 by 100 image the centre pixel (50, 50) is 255 and the top-left corner pixel
  (0, 0) is 0.
\<close>

theorem fallback_mask_pixels:
  "(\<exists>out. generate_fallback_mask img = Inr out \<and> im_mode out = ''L'' \<and>
      im_width out = im_width img \<and> im_height out = im_height img \<and>
      length (im_data out) = im_width img * im_height img \<and>
      (\<forall>x<im_width img. \<forall>y<im_height img.
         getpixel out (x, y) =
           Inr (if mask_inside_float (im_width img) (im_height img) x y then 255 else 0))) \<and>
   getpixel_of (generate_fallback_mask (blank_rgb 100 100)) (50, 50) = Inr 255 \<and>
   getpixel_of (generate_fallback_mask (blank_rgb 100 100)) (0, 0) = Inr 0"
  using fallback_mask_result [of img]
  by (simp add: mask_pixel_at mask_100_centre mask_100_corner)

theorem fallback_mask_pixels_witness:
  "(50::nat) < im_width (blank_rgb 100 100) \<and> (50::nat) < im_height (blank_rgb 100 100) \<and>
   (\<exists>out. generate_fallback_mask (blank_rgb 100 100) = Inr out \<and> im_mode out = ''L'' \<and>
      im_width out = 100 \<and> im_height out = 100 \<and> getpixel out (50, 50) = Inr 255)"
  using fallback_mask_pixels [of "blank_rgb 100 100"]
  by (auto simp: mask_100_centre)

section \<open>Properties of the pipeline\<close>

text \<open>What one \<open>update_job\<close> call with at least one argument does to each part of the state.\<close>

lemma update_job_jobs_at:
  "\<not> (st = None \<and> it = None \<and> pr = None \<and> er = None \<and> ou = None) \<Longrightarrow>
   jobs (fst (update_job env w j st it pr er ou)) j =
     map_option (fold assign
       ((case st of None \<Rightarrow> [] | Some s \<Rightarrow> [Set_status s]) @
        (case it of None \<Rightarrow> [] | Some t \<Rightarrow> [Set_input_type t]) @
        (case pr of None \<Rightarrow> [] | Some p \<Rightarrow> [Set_progress p]) @
        (case er of None \<Rightarrow> [] | Some m \<Rightarrow> [Set_error m]) @
        (case ou of None \<Rightarrow> [] | Some d \<Rightarrow> [Set_outputs d]) @
        [Set_updated_at (utcnow env (readings w))])) (jobs w j)"
  by (auto simp: update_job_def Let_def split: option.splits)

lemma update_job_journal:
  "\<not> (st = None \<and> it = None \<and> pr = None \<and> er = None \<and> ou = None) \<Longrightarrow>
   journal (fst (update_job env w j st it pr er ou)) =
     journal w @ [(j,
       (case st of None \<Rightarrow> [] | Some s \<Rightarrow> [Set_status s]) @
        (case it of None \<Rightarrow> [] | Some t \<Rightarrow> [Set_input_type t]) @
        (case pr of None \<Rightarrow> [] | Some p \<Rightarrow> [Set_progress p]) @
        (case er of None \<Rightarrow> [] | Some m \<Rightarrow> [Set_error m]) @
        (case ou of None \<Rightarrow> [] | Some d \<Rightarrow> [Set_outputs d]) @
        [Set_updated_at (utcnow env (readings w))],
       jobs (fst (update_job env w j st it pr er ou)) j)]"
  by (auto simp: update_job_def Let_def split: option.splits)

lemma update_job_assets:
  "assets (fst (update_job env w j st it pr er ou)) = assets w"
  by (auto simp: update_job_def Let_def split: option.splits)

lemma update_job_files:
  "files (fst (update_job env w j st it pr er ou)) = files w"
  by (auto simp: update_job_def Let_def split: option.splits)

lemma update_job_readings:
  "\<not> (st = None \<and> it = None \<and> pr = None \<and> er = None \<and> ou = None) \<Longrightarrow>
   readings (fst (update_job env w j st it pr er ou)) = Suc (readings w)"
  by (auto simp: update_job_def Let_def split: option.splits)

lemmas update_job_effect =
  update_job_jobs_at update_job_journal update_job_assets update_job_files update_job_readings

text \<open>Two concrete runs: a 1 by 1 upload and a 4 by 2 upload, depth from Replicate.\<close>

lemma replicate_env_fields:
  "UPLOADS_DIR (replicate_env u d) = ''uploads''"
  "ASSETS_DIR (replicate_env u d) = ''assets''"
  "path_exists (replicate_env u d) p = (p = ''uploads/job-1/input.png'')"
  "Image_open (replicate_env u d) p = Inr u"
  "convert (replicate_env u d) m i = Inr (i\<lparr>im_mode := m\<rparr>)"
  "save_png (replicate_env u d) i = Inr (''PNG'' @ im_mode i)"
  "write_file (replicate_env u d) p x = None"
  by (simp_all add: offline_env_def replicate_env_def)

lemma tiny_run_classify:
  "snd (classify_image (replicate_env tiny_upload provider_depth) tiny_upload) = Inr OBJECT"
  by code_simp

lemma wide_run_classify:
  "snd (classify_image (replicate_env wide_upload provider_depth) wide_upload) = Inr LANDSCAPE"
  by code_simp

lemma replicate_run_depth:
  "snd (generate_depth_map (replicate_env u d) i) = Inr d"
  by (simp add: generate_depth_map_def replicate_env_def truthy_def)

lemma tiny_run_mask:
  "generate_mask (replicate_env tiny_upload provider_depth) tiny_upload =
     Inr \<lparr>im_mode = ''L'', im_width = 1, im_height = 1, im_data = [255]\<rparr>"
  by code_simp

lemmas run_facts =
  replicate_env_fields tiny_run_classify wide_run_classify replicate_run_depth tiny_run_mask
  update_job_effect create_asset_def save_asset_def Let_def pending_world_def

text \<open>
  Claim C1. For a job whose stored progress is at most 10 when \<open>process_image\<close> starts
  (\<open>create_job\<close> stores 0), the statements the run executes all address that job, and
  the progress values they write are, in order, 10, 20, 30, 40, 60, then 80 only when
  the input type is Object, then 100, cut short where an exception was raised. The
  statement of the failure path writes no progress. The progress a client reads after
  each statement never decreases.
\<close>

theorem progress_non_decreasing:
  assumes "jobs w0 job_id = Some row0" and "progress row0 \<le> 10"
  shows "case process_image env w0 job_id filename hint of (w', res) \<Rightarrow>
     (\<exists>js. journal w' = journal w0 @ js \<and>
        (\<forall>entry\<in>set js. fst entry = job_id) \<and>
        progress_writes js \<in> {[10], [10, 20], [10, 20, 30, 40], [10, 20, 30, 40, 60],
           [10, 20, 30, 40, 60, 80], [10, 20, 30, 40, 60, 100], [10, 20, 30, 40, 60, 80, 100]} \<and>
        (80 \<in> set (progress_writes js) \<longrightarrow>
           map_option input_type (jobs w' job_id) = Some (Some OBJECT)) \<and>
        (res = Inr () \<longleftrightarrow> 100 \<in> set (progress_writes js)) \<and>
        (res \<noteq> Inr () \<longrightarrow> progress_writes [last js] = []) \<and>
        length (progress_polls js) = length js \<and>
        sorted (progress row0 # progress_polls js))"
  using assms
  unfolding process_image_def process_image_try_def
  by (simp add: update_job_effect create_asset_def save_asset_def Let_def
        progress_writes_def progress_polls_def
      split: sum.split option.split)

theorem progress_non_decreasing_witness:
  "jobs pending_world ''job-1'' = Some pending_row \<and> progress pending_row \<le> 10 \<and>
   (case process_image (replicate_env tiny_upload provider_depth) pending_world ''job-1''
           ''input.png'' None of
      (w', res) \<Rightarrow> res = Inr () \<and> progress_writes (journal w') = [10, 20, 30, 40, 60, 80, 100] \<and>
        sorted (progress pending_row # progress_polls (journal w')))"
proof -
  have h1: "jobs pending_world ''job-1'' = Some pending_row"
    by (simp add: pending_world_def)
  have h2: "progress pending_row \<le> 10"
    by (simp add: pending_row_def)
  have h3: "snd (process_image (replicate_env tiny_upload provider_depth) pending_world ''job-1''
              ''input.png'' None) = Inr ()"
    unfolding process_image_def process_image_try_def
    by (simp add: run_facts)
  have h4: "progress_writes (journal (fst (process_image (replicate_env tiny_upload provider_depth)
              pending_world ''job-1'' ''input.png'' None))) = [10, 20, 30, 40, 60, 80, 100]"
    unfolding process_image_def process_image_try_def
    by (simp add: run_facts progress_writes_def)
  have h5: "journal pending_world = []"
    by (simp add: pending_world_def)
  show ?thesis
    using h1 h2 h3 h4 h5
      progress_non_decreasing [OF h1 h2, where env = "replicate_env tiny_upload provider_depth"
        and filename = "''input.png''" and hint = None]
    by (auto split: prod.splits)
qed

text \<open>
  Claim C2. A run of \<open>process_image\<close> leaves the job Completed exactly when it returns
  without an exception. Then the stored outputs have exactly the keys color and depth,
  and mask as well exactly when the stored input type (the hint when one was given,
  the classification otherwise) is Object. The run created one asset per key, in that
  order, with the ids the outputs name: each is owned by the job, is of type
  \<open>image/png\<close>, carries the width and height of the upload, and its file is in the
  blob store with the recorded size. The color file is the PNG encoding of the upload
  converted to RGB, the depth file that of the depth map, the mask file that of the
  mask; no other file of the blob store changed, so without Object no mask file is
  written.
\<close>

theorem completed_outputs:
  assumes "jobs w0 job_id = Some row0"
  shows "case process_image env w0 job_id filename hint of
      (w', Inl e) \<Rightarrow> map_option status (jobs w' job_id) \<noteq> Some COMPLETED
    | (w', Inr u) \<Rightarrow>
       (\<exists>row' itype outs new img. jobs w' job_id = Some row' \<and> status row' = COMPLETED \<and>
          progress row' = 100 \<and> input_type row' = Some itype \<and>
          (hint \<noteq> None \<longrightarrow> hint = Some itype) \<and> outputs row' = Some outs \<and>
          map fst outs = (case itype of
                            OBJECT \<Rightarrow> [''color'', ''depth'', ''mask'']
                          | LANDSCAPE \<Rightarrow> [''color'', ''depth'']
                          | UNKNOWN \<Rightarrow> [''color'', ''depth'']) \<and>
          assets w' = assets w0 @ new \<and> map asset_type new = map fst outs \<and>
          map asset_id new = map snd outs \<and>
          Image_open env (UPLOADS_DIR env @ ''/'' @ job_id @ ''/'' @ filename) = Inr img \<and>
          (\<forall>a\<in>set new. asset_job_id a = job_id \<and> content_type a = ''image/png'' \<and>
             asset_filename a = asset_type a @ ''.png'' \<and>
             metadata a = Some [(''width'', int (im_width img)), (''height'', int (im_height img))] \<and>
             (\<exists>data. files w' (ASSETS_DIR env @ ''/'' @ job_id @ ''/'' @ asset_type a @ ''.png'')
                        = Some data \<and> asset_size a = length data)) \<and>
          (\<exists>rgb data. convert env ''RGB'' img = Inr rgb \<and> save_png env rgb = Inr data \<and>
             files w' (ASSETS_DIR env @ ''/'' @ job_id @ ''/'' @ ''color'' @ ''.png'') = Some data) \<and>
          (\<exists>depth data. snd (generate_depth_map env img) = Inr depth \<and>
             save_png env depth = Inr data \<and>
             files w' (ASSETS_DIR env @ ''/'' @ job_id @ ''/'' @ ''depth'' @ ''.png'') = Some data) \<and>
          (itype = OBJECT \<longrightarrow>
             (\<exists>mask data. generate_mask env img = Inr mask \<and> save_png env mask = Inr data \<and>
                files w' (ASSETS_DIR env @ ''/'' @ job_id @ ''/'' @ ''mask'' @ ''.png'') = Some data)) \<and>
          (\<forall>p. p \<notin> (\<lambda>k. ASSETS_DIR env @ ''/'' @ job_id @ ''/'' @ k @ ''.png'') ` set (map fst outs) \<longrightarrow>
             files w' p = files w0 p))"
  using assms
  unfolding process_image_def process_image_try_def
  apply (simp add: update_job_effect create_asset_def save_asset_def Let_def
           split: sum.split option.split)
  apply (simp split: InputType.split)
  done

theorem completed_outputs_witness:
  "jobs pending_world ''job-1'' = Some pending_row \<and>
   snd (process_image (replicate_env wide_upload provider_depth) pending_world ''job-1''
          ''input.png'' None) = Inr () \<and>
   snd (process_image (replicate_env tiny_upload provider_depth) pending_world ''job-1''
          ''input.png'' None) = Inr () \<and>
   (\<exists>row' outs. jobs (fst (process_image (replicate_env wide_upload provider_depth) pending_world
                    ''job-1'' ''input.png'' None)) ''job-1'' = Some row' \<and>
      input_type row' = Some LANDSCAPE \<and> outputs row' = Some outs \<and>
      map fst outs = [''color'', ''depth'']) \<and>
   files (fst (process_image (replicate_env wide_upload provider_depth) pending_world
                 ''job-1'' ''input.png'' None)) ''assets/job-1/color.png'' = Some ''PNGRGB'' \<and>
   files (fst (process_image (replicate_env wide_upload provider_depth) pending_world
                 ''job-1'' ''input.png'' None)) ''assets/job-1/depth.png'' = Some ''PNGL'' \<and>
   files (fst (process_image (replicate_env wide_upload provider_depth) pending_world
                 ''job-1'' ''input.png'' None)) ''assets/job-1/mask.png'' = None \<and>
   (\<exists>row' outs. jobs (fst (process_image (replicate_env tiny_upload provider_depth) pending_world
                    ''job-1'' ''input.png'' None)) ''job-1'' = Some row' \<and>
      input_type row' = Some OBJECT \<and> outputs row' = Some outs \<and>
      map fst outs = [''color'', ''depth'', ''mask'']) \<and>
   files (fst (process_image (replicate_env tiny_upload provider_depth) pending_world
                 ''job-1'' ''input.png'' None)) ''assets/job-1/mask.png'' = Some ''PNGL''"
proof -
  let ?wide = "process_image (replicate_env wide_upload provider_depth) pending_world ''job-1''
                 ''input.png'' None"
  let ?tiny = "process_image (replicate_env tiny_upload provider_depth) pending_world ''job-1''
                 ''input.png'' None"
  have h1: "jobs pending_world ''job-1'' = Some pending_row"
    by (simp add: pending_world_def)
  have h2: "snd ?wide = Inr ()"
    unfolding process_image_def process_image_try_def
    by (simp add: run_facts)
  have h3: "snd ?tiny = Inr ()"
    unfolding process_image_def process_image_try_def
    by (simp add: run_facts)
  have h4: "map_option input_type (jobs (fst ?wide) ''job-1'') = Some (Some LANDSCAPE)"
    unfolding process_image_def process_image_try_def
    by (simp add: run_facts)
  have h5: "map_option input_type (jobs (fst ?tiny) ''job-1'') = Some (Some OBJECT)"
    unfolding process_image_def process_image_try_def
    by (simp add: run_facts)
  have h6: "files pending_world = Map.empty"
    by (simp add: pending_world_def)
  have depth: "im_mode provider_depth = ''L''"
    by (simp add: provider_depth_def Image_new_def)
  have mask: "generate_mask (replicate_env tiny_upload provider_depth) tiny_upload = Inr m
                \<Longrightarrow> im_mode m = ''L''" for m
    by (auto simp: tiny_run_mask)
  note wide = completed_outputs [OF h1, where env = "replicate_env wide_upload provider_depth"
        and filename = "''input.png''" and hint = None]
  note tiny = completed_outputs [OF h1, where env = "replicate_env tiny_upload provider_depth"
        and filename = "''input.png''" and hint = None]
  show ?thesis
    using h1 h2 h3 h4 h5 h6 depth mask wide tiny
    by (cases ?wide; cases ?tiny)
       (auto simp: replicate_env_fields replicate_run_depth split: sum.splits)
qed

text \<open>
  Claim C3. When the body of \<open>process_image\<close> raises an exception, \<open>process_image\<close>
  raises the same exception, and the state in which it leaves already holds the
  failure: the last statement on the ledger sets status Failed and the error text
  \<^verbatim>\<open>str(e)\<close> and nothing else, so the progress stays what it was when the exception was
  raised, one of 10, 20, 40, 60, 80. When the upload does not exist the exception is
  \<open>FileNotFoundError\<close> and the progress stays 10.
\<close>

theorem failure_recorded:
  assumes "jobs w0 job_id = Some row0"
  shows "(\<forall>e. snd (process_image_try env w0 job_id filename hint) = Inl e \<longrightarrow>
      (\<exists>w' row' t. process_image env w0 job_id filename hint = (w', Inl e) \<and>
         jobs w' job_id = Some row' \<and> status row' = FAILED \<and> error row' = Some (str_of e) \<and>
         map_option progress (jobs (fst (process_image_try env w0 job_id filename hint)) job_id)
           = Some (progress row') \<and>
         progress row' \<in> {10, 20, 40, 60, 80} \<and>
         journal w' = journal (fst (process_image_try env w0 job_id filename hint)) @
           [(job_id, [Set_status FAILED, Set_error (str_of e), Set_updated_at t], Some row')])) \<and>
    (\<not> path_exists env (UPLOADS_DIR env @ ''/'' @ job_id @ ''/'' @ filename) \<longrightarrow>
      (\<exists>w' row'. process_image env w0 job_id filename hint =
           (w', Inl (FileNotFoundError
              (''Upload not found: '' @ UPLOADS_DIR env @ ''/'' @ job_id @ ''/'' @ filename))) \<and>
         jobs w' job_id = Some row' \<and> status row' = FAILED \<and> progress row' = 10 \<and>
         error row' =
           Some (''Upload not found: '' @ UPLOADS_DIR env @ ''/'' @ job_id @ ''/'' @ filename)))"
proof -
  have "case process_image env w0 job_id filename hint of
      (w', Inr u) \<Rightarrow> snd (process_image_try env w0 job_id filename hint) = Inr u
    | (w', Inl e) \<Rightarrow> snd (process_image_try env w0 job_id filename hint) = Inl e \<and>
       (\<exists>row' t. jobs w' job_id = Some row' \<and> status row' = FAILED \<and>
         error row' = Some (str_of e) \<and>
         map_option progress (jobs (fst (process_image_try env w0 job_id filename hint)) job_id)
           = Some (progress row') \<and>
         progress row' \<in> {10, 20, 40, 60, 80} \<and>
         journal w' = journal (fst (process_image_try env w0 job_id filename hint)) @
           [(job_id, [Set_status FAILED, Set_error (str_of e), Set_updated_at t], Some row')])"
    using assms
    unfolding process_image_def process_image_try_def
    by (simp add: update_job_effect create_asset_def save_asset_def Let_def
          split: sum.split option.split)
  then have general: "\<forall>e. snd (process_image_try env w0 job_id filename hint) = Inl e \<longrightarrow>
      (\<exists>w' row' t. process_image env w0 job_id filename hint = (w', Inl e) \<and>
         jobs w' job_id = Some row' \<and> status row' = FAILED \<and> error row' = Some (str_of e) \<and>
         map_option progress (jobs (fst (process_image_try env w0 job_id filename hint)) job_id)
           = Some (progress row') \<and>
         progress row' \<in> {10, 20, 40, 60, 80} \<and>
         journal w' = journal (fst (process_image_try env w0 job_id filename hint)) @
           [(job_id, [Set_status FAILED, Set_error (str_of e), Set_updated_at t], Some row')])"
    by (cases "process_image env w0 job_id filename hint") (auto split: sum.splits)
  have missing: "\<not> path_exists env (UPLOADS_DIR env @ ''/'' @ job_id @ ''/'' @ filename) \<longrightarrow>
      (\<exists>w' row'. process_image env w0 job_id filename hint =
           (w', Inl (FileNotFoundError
              (''Upload not found: '' @ UPLOADS_DIR env @ ''/'' @ job_id @ ''/'' @ filename))) \<and>
         jobs w' job_id = Some row' \<and> status row' = FAILED \<and> progress row' = 10 \<and>
         error row' =
           Some (''Upload not found: '' @ UPLOADS_DIR env @ ''/'' @ job_id @ ''/'' @ filename))"
    using assms
    unfolding process_image_def process_image_try_def
    by (simp add: update_job_effect Let_def)
  from general missing show ?thesis
    by blast
qed

theorem failure_recorded_witness:
  "jobs pending_world ''job-1'' = Some pending_row \<and>
   \<not> path_exists (no_upload_env wide_upload) ''uploads/job-1/input.png'' \<and>
   snd (process_image_try (no_upload_env wide_upload) pending_world ''job-1'' ''input.png'' None)
     = Inl (FileNotFoundError ''Upload not found: uploads/job-1/input.png'') \<and>
   (\<exists>w' row'. process_image (no_upload_env wide_upload) pending_world ''job-1'' ''input.png'' None
        = (w', Inl (FileNotFoundError ''Upload not found: uploads/job-1/input.png'')) \<and>
      jobs w' ''job-1'' = Some row' \<and> status row' = FAILED \<and> progress row' = 10 \<and>
      error row' = Some ''Upload not found: uploads/job-1/input.png'')"
proof -
  have h1: "jobs pending_world ''job-1'' = Some pending_row"
    by (simp add: pending_world_def)
  have h2: "\<not> path_exists (no_upload_env wide_upload) ''uploads/job-1/input.png''"
    by (simp add: no_upload_env_def)
  have h3: "snd (process_image_try (no_upload_env wide_upload) pending_world ''job-1''
              ''input.png'' None)
            = Inl (FileNotFoundError ''Upload not found: uploads/job-1/input.png'')"
    unfolding process_image_try_def
    by (simp add: no_upload_env_def offline_env_def Let_def)
  have h4: "UPLOADS_DIR (no_upload_env wide_upload) @ ''/'' @ ''job-1'' @ ''/'' @ ''input.png''
            = ''uploads/job-1/input.png''"
    by (simp add: no_upload_env_def offline_env_def)
  show ?thesis
    using h1 h2 h3
      failure_recorded [OF h1, where env = "no_upload_env wide_upload"
        and filename = "''input.png''" and hint = None]
    unfolding h4
    by auto
qed

end
